theory Spec2Isabelle
  imports Complex_Main
begin

section \<open>Arrays, errors and the random sources\<close>

text \<open>
  The program is \<^verbatim>\<open>src/CH14/RBM_01.py\<close>: a restricted Boltzmann machine on numpy arrays.
  Doubles are idealised as reals: finite IEEE results are read as the real numbers they
  round, and the one place where the code leaves the finite doubles without raising
  (a division \<open>0/0\<close> when the data has no rows) is an outcome of its own, \<open>NotANumber\<close>.
  The other constructors of \<open>error\<close> are the Python exceptions the code can raise.
\<close>

datatype error = ValueError | IndexError | ZeroDivisionError | OverflowError | NotANumber

text \<open>
  A two-dimensional numpy array: its rows, and its number of columns (which an array
  without rows still has). \<open>shape\<close> is numpy's \<^verbatim>\<open>.shape\<close>.
\<close>

record 'a array2 =
  cols :: nat
  rows :: "'a list list"

definition shape :: "'a array2 \<Rightarrow> nat \<times> nat" where
  "shape a = (length (rows a), cols a)"

definition wf_array :: "'a array2 \<Rightarrow> bool" where
  "wf_array a = list_all (\<lambda>r. length r = cols a) (rows a)"

definition at2 :: "'a array2 \<Rightarrow> nat \<Rightarrow> nat \<Rightarrow> 'a" where
  "at2 a i j = rows a ! i ! j"

text \<open>
  A source of uniform draws from \<open>[0, 1)\<close>: the stream of doubles that a Mersenne Twister
  state will hand out, by position. Drawing \<open>k\<close> numbers returns the first \<open>k\<close> and the
  stream advanced by \<open>k\<close>.
\<close>

type_synonym rng = "nat \<Rightarrow> real"

definition uniform01 :: "rng \<Rightarrow> bool" where
  "uniform01 g = (\<forall>i. 0 \<le> g i \<and> g i < 1)"

definition advance :: "nat \<Rightarrow> rng \<Rightarrow> rng" where
  "advance k g = (\<lambda>i. g (k + i))"

text \<open>\<^verbatim>\<open>rand(n)\<close>: a vector of \<open>n\<close> draws; a negative \<open>n\<close> raises ValueError.\<close>

definition rand1 :: "int \<Rightarrow> rng \<Rightarrow> error + (real list \<times> rng)" where
  "rand1 n g =
     (if n < 0 then Inl ValueError
      else Inr (map g [0..<nat n], advance (nat n) g))"

text \<open>\<^verbatim>\<open>rand(n, m)\<close>: an \<open>n \<times> m\<close> array of draws, filled row by row.\<close>

definition rand2 :: "int \<Rightarrow> int \<Rightarrow> rng \<Rightarrow> error + (real array2 \<times> rng)" where
  "rand2 n m g =
     (if n < 0 \<or> m < 0 then Inl ValueError
      else Inr (\<lparr>cols = nat m,
                 rows = map (\<lambda>i. map (\<lambda>j. g (i * nat m + j)) [0..<nat m]) [0..<nat n]\<rparr>,
                advance (nat n * nat m) g))"

text \<open>
  \<^verbatim>\<open>RandomState.uniform(low, high, size=(n, m))\<close>: a range that is not finite raises
  OverflowError before the size is looked at (the caller passes \<open>None\<close> for bounds that
  are not finite); a negative dimension raises ValueError; each entry is
  \<open>low + (high - low) * u\<close> for the next draw \<open>u\<close>.
\<close>

definition uniform :: "rng \<Rightarrow> real option \<Rightarrow> real option \<Rightarrow> int \<Rightarrow> int \<Rightarrow> error + real array2" where
  "uniform g low high n m =
     (case (low, high) of
        (Some lo, Some hi) \<Rightarrow>
          (case rand2 n m g of
             Inl e \<Rightarrow> Inl e
           | Inr (u, _) \<Rightarrow> Inr \<lparr>cols = cols u, rows = map (map (\<lambda>x. lo + (hi - lo) * x)) (rows u)\<rparr>)
      | _ \<Rightarrow> Inl OverflowError)"

text \<open>\<^verbatim>\<open>np.sqrt\<close> of a double: \<open>nan\<close> (here \<open>None\<close>) below zero, with a warning only.\<close>

definition np_sqrt :: "real \<Rightarrow> real option" where
  "np_sqrt x = (if x < 0 then None else Some (sqrt x))"

text \<open>\<^verbatim>\<open>np.insert(a, 0, v, axis = 1)\<close> and \<^verbatim>\<open>np.insert(a, 0, v, axis = 0)\<close>.\<close>

definition insert_col0 :: "'a \<Rightarrow> 'a array2 \<Rightarrow> 'a array2" where
  "insert_col0 v a = \<lparr>cols = cols a + 1, rows = map ((#) v) (rows a)\<rparr>"

definition insert_row0 :: "'a \<Rightarrow> 'a array2 \<Rightarrow> 'a array2" where
  "insert_row0 v a = \<lparr>cols = cols a, rows = replicate (cols a) v # rows a\<rparr>"

text \<open>\<^verbatim>\<open>np.ones((n, m))\<close>; a negative dimension raises ValueError.\<close>

definition ones2 :: "int \<Rightarrow> int \<Rightarrow> error + real array2" where
  "ones2 n m =
     (if n < 0 \<or> m < 0 then Inl ValueError
      else Inr \<lparr>cols = nat m, rows = replicate (nat n) (replicate (nat m) 1)\<rparr>)"

text \<open>\<^verbatim>\<open>a.T\<close>, and \<^verbatim>\<open>a[:, 1:]\<close>.\<close>

definition T :: "'a array2 \<Rightarrow> 'a array2" where
  "T a = \<lparr>cols = length (rows a), rows = map (\<lambda>j. map (\<lambda>r. r ! j) (rows a)) [0..<cols a]\<rparr>"

definition drop_col0 :: "'a array2 \<Rightarrow> 'a array2" where
  "drop_col0 a = \<lparr>cols = cols a - 1, rows = map (drop 1) (rows a)\<rparr>"

text \<open>
  \<^verbatim>\<open>np.dot\<close> of two matrices, and of a vector with a matrix: ValueError when the inner
  dimensions differ.
\<close>

definition inner :: "real list \<Rightarrow> real list \<Rightarrow> real" where
  "inner x y = sum_list (map2 (*) x y)"

definition dot :: "real array2 \<Rightarrow> real array2 \<Rightarrow> error + real array2" where
  "dot a b =
     (if cols a \<noteq> length (rows b) then Inl ValueError
      else Inr \<lparr>cols = cols b, rows = map (\<lambda>r. map (inner r) (rows (T b))) (rows a)\<rparr>)"

definition dot1 :: "real list \<Rightarrow> real array2 \<Rightarrow> error + real list" where
  "dot1 v b =
     (if length v \<noteq> length (rows b) then Inl ValueError
      else Inr (map (inner v) (rows (T b))))"

text \<open>\<^verbatim>\<open>RBM._logistic\<close>, applied to every entry of an array.\<close>

definition logistic :: "real \<Rightarrow> real" where
  "logistic x = 1 / (1 + exp (- x))"

definition map_array :: "('a \<Rightarrow> 'b) \<Rightarrow> 'a array2 \<Rightarrow> 'b array2" where
  "map_array f a = \<lparr>cols = cols a, rows = map (map f) (rows a)\<rparr>"

text \<open>\<^verbatim>\<open>a[:, 0] = v\<close>: IndexError on an array without columns.\<close>

definition set_col0 :: "'a \<Rightarrow> 'a array2 \<Rightarrow> error + 'a array2" where
  "set_col0 v a =
     (if cols a = 0 then Inl IndexError
      else Inr \<lparr>cols = cols a, rows = map (\<lambda>r. r[0 := v]) (rows a)\<rparr>)"

text \<open>
  Broadcasting: two dimensions agree when they are equal or one of them is 1, and an axis
  of size 1 is repeated. Binary operations on arrays of shapes that do not agree raise
  ValueError.
\<close>

definition bdim :: "nat \<Rightarrow> nat \<Rightarrow> nat option" where
  "bdim a b = (if a = b then Some a else if a = 1 then Some b else if b = 1 then Some a else None)"

definition stretch :: "nat \<Rightarrow> 'a list \<Rightarrow> 'a list" where
  "stretch n xs = (if length xs = n then xs else replicate n (hd xs))"

definition broadcast_to :: "nat \<Rightarrow> nat \<Rightarrow> 'a array2 \<Rightarrow> 'a array2" where
  "broadcast_to n m a = \<lparr>cols = m, rows = stretch n (map (stretch m) (rows a))\<rparr>"

definition binop1 :: "('a \<Rightarrow> 'b \<Rightarrow> 'c) \<Rightarrow> 'a list \<Rightarrow> 'b list \<Rightarrow> error + 'c list" where
  "binop1 f x y =
     (case bdim (length x) (length y) of
        None \<Rightarrow> Inl ValueError
      | Some n \<Rightarrow> Inr (map2 f (stretch n x) (stretch n y)))"

definition binop2 :: "('a \<Rightarrow> 'b \<Rightarrow> 'c) \<Rightarrow> 'a array2 \<Rightarrow> 'b array2 \<Rightarrow> error + 'c array2" where
  "binop2 f a b =
     (case (bdim (length (rows a)) (length (rows b)), bdim (cols a) (cols b)) of
        (Some n, Some m) \<Rightarrow>
          Inr \<lparr>cols = m,
               rows = map2 (map2 f) (rows (broadcast_to n m a)) (rows (broadcast_to n m b))\<rparr>
      | _ \<Rightarrow> Inl ValueError)"

text \<open>
  Assignments into an existing array, \<^verbatim>\<open>t[:, :] = s\<close> and \<^verbatim>\<open>t += s\<close> on matrices,
  \<^verbatim>\<open>t[...] = s\<close> on a vector: the right-hand side must broadcast to the shape of the
  target, which keeps its shape.
\<close>

definition fits :: "nat \<Rightarrow> nat \<Rightarrow> bool" where
  "fits k n = (k = n \<or> k = 1)"

definition assign2 :: "real array2 \<Rightarrow> real array2 \<Rightarrow> error + real array2" where
  "assign2 t s =
     (if fits (length (rows s)) (length (rows t)) \<and> fits (cols s) (cols t)
      then Inr (broadcast_to (length (rows t)) (cols t) s)
      else Inl ValueError)"

definition iadd2 :: "real array2 \<Rightarrow> real array2 \<Rightarrow> error + real array2" where
  "iadd2 t s =
     (if fits (length (rows s)) (length (rows t)) \<and> fits (cols s) (cols t)
      then Inr \<lparr>cols = cols t,
                rows = map2 (map2 (+)) (rows t) (rows (broadcast_to (length (rows t)) (cols t) s))\<rparr>
      else Inl ValueError)"

definition assign1 :: "real list \<Rightarrow> real list \<Rightarrow> error + real list" where
  "assign1 t s = (if fits (length s) (length t) then Inr (stretch (length t) s) else Inl ValueError)"

text \<open>A Boolean array where a float array is expected: \<open>True\<close> is 1 and \<open>False\<close> is 0.\<close>

definition as_float :: "bool \<Rightarrow> real" where
  "as_float b = (if b then 1 else 0)"

text \<open>\<^verbatim>\<open>np.sum\<close> over all entries.\<close>

definition np_sum :: "real array2 \<Rightarrow> real" where
  "np_sum a = sum_list (map sum_list (rows a))"

section \<open>The engine\<close>

record rbm =
  num_hidden :: int
  num_visible :: int
  debug_print :: bool
  weights :: "real array2"

text \<open>
  What lives outside the engine: the process-wide generator behind \<^verbatim>\<open>np.random.rand\<close>,
  and the lines printed by \<open>train\<close> (epoch and error).
\<close>

record env =
  np_random :: rng
  stdout :: "(int \<times> real) list"

text \<open>
  \<^verbatim>\<open>RBM.__init__\<close>. \<open>RandomState seed\<close> is the stream of a fresh generator seeded with
  \<open>seed\<close> (numpy's; not part of the repository). \<^verbatim>\<open>6. / (num_hidden + num_visible)\<close> is a
  Python float division and raises ZeroDivisionError at zero.
\<close>

definition RBM_init :: "(int \<Rightarrow> rng) \<Rightarrow> int \<Rightarrow> int \<Rightarrow> env \<Rightarrow> (error + rbm) \<times> env" where
  "RBM_init RandomState nv nh e =
     (if nh + nv = 0 then (Inl ZeroDivisionError, e)
      else
        let np_rng = RandomState 1234;
            low = map_option (\<lambda>s. - 0.1 * s) (np_sqrt (6 / real_of_int (nh + nv)));
            high = map_option (\<lambda>s. 0.1 * s) (np_sqrt (6 / real_of_int (nh + nv)))
        in case uniform np_rng low high nv nh of
             Inl err \<Rightarrow> (Inl err, e)
           | Inr w \<Rightarrow>
               (Inr \<lparr>num_hidden = nh, num_visible = nv, debug_print = True,
                     weights = insert_col0 0 (insert_row0 0 w)\<rparr>, e))"

text \<open>
  One pass of the loop body of \<^verbatim>\<open>RBM.train\<close> (lines 38 to 58), on the data with its bias
  column already inserted. An exception leaves the engine as it was when the exception
  was raised. The division by \<open>num_examples\<close> is numpy's: at zero it gives \<open>nan\<close> entries
  and no exception.
\<close>

definition train_epoch ::
  "real array2 \<Rightarrow> nat \<Rightarrow> real \<Rightarrow> int \<Rightarrow> rbm \<times> env \<Rightarrow> (error + unit) \<times> rbm \<times> env" where
  "train_epoch data num_examples learning_rate epoch st =
     (let self = fst st; e = snd st in
      (case dot data (weights self) of Inl err \<Rightarrow> (Inl err, self, e)
      | Inr pos_hidden_activations \<Rightarrow>
      (case set_col0 1 (map_array logistic pos_hidden_activations) of Inl err \<Rightarrow> (Inl err, self, e)
      | Inr pos_hidden_probs \<Rightarrow>
      (case rand2 (int num_examples) (num_hidden self + 1) (np_random e) of Inl err \<Rightarrow> (Inl err, self, e)
      | Inr (u, g) \<Rightarrow>
      let e = e\<lparr>np_random := g\<rparr> in
      (case binop2 (>) pos_hidden_probs u of Inl err \<Rightarrow> (Inl err, self, e)
      | Inr pos_hidden_states \<Rightarrow>
      (case dot (T data) pos_hidden_probs of Inl err \<Rightarrow> (Inl err, self, e)
      | Inr pos_associations \<Rightarrow>
      (case dot (map_array as_float pos_hidden_states) (T (weights self)) of Inl err \<Rightarrow> (Inl err, self, e)
      | Inr neg_visible_activations \<Rightarrow>
      (case set_col0 1 (map_array logistic neg_visible_activations) of Inl err \<Rightarrow> (Inl err, self, e)
      | Inr neg_visible_probs \<Rightarrow>
      (case dot neg_visible_probs (weights self) of Inl err \<Rightarrow> (Inl err, self, e)
      | Inr neg_hidden_activations \<Rightarrow>
      let neg_hidden_probs = map_array logistic neg_hidden_activations in
      (case dot (T neg_visible_probs) neg_hidden_probs of Inl err \<Rightarrow> (Inl err, self, e)
      | Inr neg_associations \<Rightarrow>
      (case binop2 (-) pos_associations neg_associations of Inl err \<Rightarrow> (Inl err, self, e)
      | Inr diff \<Rightarrow>
      if num_examples = 0 then (Inl NotANumber, self, e)
      else
      (case iadd2 (weights self)
             (map_array (\<lambda>x. learning_rate * x) (map_array (\<lambda>x. x / real num_examples) diff))
      of Inl err \<Rightarrow> (Inl err, self, e)
      | Inr w \<Rightarrow>
      let self = self\<lparr>weights := w\<rparr> in
      (case binop2 (-) data neg_visible_probs of Inl err \<Rightarrow> (Inl err, self, e)
      | Inr d \<Rightarrow>
      let error = np_sum (map_array (\<lambda>x. x ^ 2) d) in
      (Inr (), self,
       if debug_print self then e\<lparr>stdout := stdout e @ [(epoch, error)]\<rparr> else e))))))))))))))"

text \<open>\<^verbatim>\<open>for epoch in range(max_epochs)\<close>: \<open>k\<close> passes still to run, the next one numbered \<open>epoch\<close>.\<close>

fun train_loop ::
  "nat \<Rightarrow> real array2 \<Rightarrow> nat \<Rightarrow> real \<Rightarrow> int \<Rightarrow> rbm \<times> env \<Rightarrow> (error + unit) \<times> rbm \<times> env" where
  "train_loop 0 data num_examples learning_rate epoch st = (Inr (), st)"
| "train_loop (Suc k) data num_examples learning_rate epoch st =
     (case train_epoch data num_examples learning_rate epoch st of
        (Inl err, st') \<Rightarrow> (Inl err, st')
      | (Inr _, st') \<Rightarrow> train_loop k data num_examples learning_rate (epoch + 1) st')"

text \<open>\<^verbatim>\<open>RBM.train\<close>. \<open>range(max_epochs)\<close> is empty when \<open>max_epochs\<close> is not positive.\<close>

definition train :: "rbm \<Rightarrow> real array2 \<Rightarrow> int \<Rightarrow> real \<Rightarrow> env \<Rightarrow> (error + unit) \<times> rbm \<times> env" where
  "train self data max_epochs learning_rate e =
     (let num_examples = length (rows data);
          data = insert_col0 1 data
      in train_loop (nat max_epochs) data num_examples learning_rate 0 (self, e))"

text \<open>\<^verbatim>\<open>RBM.run_visible\<close> and \<^verbatim>\<open>RBM.run_hidden\<close>.\<close>

definition run_visible :: "rbm \<Rightarrow> real array2 \<Rightarrow> env \<Rightarrow> (error + real array2) \<times> rbm \<times> env" where
  "run_visible self data e =
     (let num_examples = length (rows data) in
      (case ones2 (int num_examples) (num_hidden self + 1) of Inl err \<Rightarrow> (Inl err, self, e)
      | Inr hidden_states \<Rightarrow>
      let data = insert_col0 1 data in
      (case dot data (weights self) of Inl err \<Rightarrow> (Inl err, self, e)
      | Inr hidden_activations \<Rightarrow>
      let hidden_probs = map_array logistic hidden_activations in
      (case rand2 (int num_examples) (num_hidden self + 1) (np_random e) of Inl err \<Rightarrow> (Inl err, self, e)
      | Inr (u, g) \<Rightarrow>
      let e = e\<lparr>np_random := g\<rparr> in
      (case binop2 (>) hidden_probs u of Inl err \<Rightarrow> (Inl err, self, e)
      | Inr b \<Rightarrow>
      (case assign2 hidden_states (map_array as_float b) of Inl err \<Rightarrow> (Inl err, self, e)
      | Inr hidden_states \<Rightarrow>
      (Inr (drop_col0 hidden_states), self, e)))))))"

definition run_hidden :: "rbm \<Rightarrow> real array2 \<Rightarrow> env \<Rightarrow> (error + real array2) \<times> rbm \<times> env" where
  "run_hidden self data e =
     (let num_examples = length (rows data) in
      (case ones2 (int num_examples) (num_visible self + 1) of Inl err \<Rightarrow> (Inl err, self, e)
      | Inr visible_states \<Rightarrow>
      let data = insert_col0 1 data in
      (case dot data (T (weights self)) of Inl err \<Rightarrow> (Inl err, self, e)
      | Inr visible_activations \<Rightarrow>
      let visible_probs = map_array logistic visible_activations in
      (case rand2 (int num_examples) (num_visible self + 1) (np_random e) of Inl err \<Rightarrow> (Inl err, self, e)
      | Inr (u, g) \<Rightarrow>
      let e = e\<lparr>np_random := g\<rparr> in
      (case binop2 (>) visible_probs u of Inl err \<Rightarrow> (Inl err, self, e)
      | Inr b \<Rightarrow>
      (case assign2 visible_states (map_array as_float b) of Inl err \<Rightarrow> (Inl err, self, e)
      | Inr visible_states \<Rightarrow>
      (Inr (drop_col0 visible_states), self, e)))))))"

text \<open>
  One pass of the Gibbs loop of \<^verbatim>\<open>RBM.daydream\<close> (lines 105 to 118): row \<open>i\<close> of \<open>samples\<close>
  is written from row \<open>i - 1\<close>. The loop runs for \<open>1 \<le> i < num_samples\<close> only, so both rows
  exist.
\<close>

definition gibbs_step ::
  "nat \<Rightarrow> real array2 \<times> rbm \<times> env \<Rightarrow> (error + unit) \<times> real array2 \<times> rbm \<times> env" where
  "gibbs_step i st =
     (let samples = fst st; self = fst (snd st); e = snd (snd st);
          visible = rows samples ! (i - 1) in
      (case dot1 visible (weights self) of Inl err \<Rightarrow> (Inl err, samples, self, e)
      | Inr hidden_activations \<Rightarrow>
      let hidden_probs = map logistic hidden_activations in
      (case rand1 (num_hidden self + 1) (np_random e) of Inl err \<Rightarrow> (Inl err, samples, self, e)
      | Inr (u, g) \<Rightarrow>
      let e = e\<lparr>np_random := g\<rparr> in
      (case binop1 (>) hidden_probs u of Inl err \<Rightarrow> (Inl err, samples, self, e)
      | Inr hidden_states \<Rightarrow>
      if hidden_states = [] then (Inl IndexError, samples, self, e)
      else
      let hidden_states = hidden_states[0 := True] in
      (case dot1 (map as_float hidden_states) (T (weights self)) of Inl err \<Rightarrow> (Inl err, samples, self, e)
      | Inr visible_activations \<Rightarrow>
      let visible_probs = map logistic visible_activations in
      (case rand1 (num_visible self + 1) (np_random e) of Inl err \<Rightarrow> (Inl err, samples, self, e)
      | Inr (u, g) \<Rightarrow>
      let e = e\<lparr>np_random := g\<rparr> in
      (case binop1 (>) visible_probs u of Inl err \<Rightarrow> (Inl err, samples, self, e)
      | Inr visible_states \<Rightarrow>
      (case assign1 (rows samples ! i) (map as_float visible_states) of Inl err \<Rightarrow> (Inl err, samples, self, e)
      | Inr row \<Rightarrow>
      (Inr (), samples\<lparr>rows := (rows samples)[i := row]\<rparr>, self, e)))))))))"

text \<open>\<^verbatim>\<open>for i in range(1, num_samples)\<close>: \<open>k\<close> passes still to run, the next one at row \<open>i\<close>.\<close>

fun gibbs_loop ::
  "nat \<Rightarrow> nat \<Rightarrow> real array2 \<times> rbm \<times> env \<Rightarrow> (error + unit) \<times> real array2 \<times> rbm \<times> env" where
  "gibbs_loop 0 i st = (Inr (), st)"
| "gibbs_loop (Suc k) i st =
     (case gibbs_step i st of
        (Inl err, st') \<Rightarrow> (Inl err, st')
      | (Inr _, st') \<Rightarrow> gibbs_loop k (i + 1) st')"

text \<open>
  \<^verbatim>\<open>RBM.daydream\<close> up to its last line: the array \<open>samples\<close> with its bias column. The
  right-hand side of \<^verbatim>\<open>samples[0,1:] = np.random.rand(self.num_visible)\<close> is evaluated
  first; the assignment raises IndexError when \<open>samples\<close> has no row.
\<close>

definition daydream_samples ::
  "rbm \<Rightarrow> int \<Rightarrow> env \<Rightarrow> (error + unit) \<times> real array2 \<times> rbm \<times> env" where
  "daydream_samples self num_samples e =
     (case ones2 num_samples (num_visible self + 1) of
        Inl err \<Rightarrow> (Inl err, \<lparr>cols = 0, rows = []\<rparr>, self, e)
      | Inr samples \<Rightarrow>
      (case rand1 (num_visible self) (np_random e) of Inl err \<Rightarrow> (Inl err, samples, self, e)
      | Inr (u, g) \<Rightarrow>
      let e = e\<lparr>np_random := g\<rparr> in
      if rows samples = [] then (Inl IndexError, samples, self, e)
      else
      (case assign1 (drop 1 (rows samples ! 0)) u of Inl err \<Rightarrow> (Inl err, samples, self, e)
      | Inr tl0 \<Rightarrow>
      let samples = samples\<lparr>rows := (rows samples)[0 := take 1 (rows samples ! 0) @ tl0]\<rparr> in
      gibbs_loop (nat (num_samples - 1)) 1 (samples, self, e))))"

text \<open>\<^verbatim>\<open>RBM.daydream\<close>: \<^verbatim>\<open>return samples[:,1:]\<close>.\<close>

definition daydream :: "rbm \<Rightarrow> int \<Rightarrow> env \<Rightarrow> (error + real array2) \<times> rbm \<times> env" where
  "daydream self num_samples e =
     (case daydream_samples self num_samples e of
        (Inl err, _, self, e) \<Rightarrow> (Inl err, self, e)
      | (Inr _, samples, self, e) \<Rightarrow> (Inr (drop_col0 samples), self, e))"

section \<open>Invariants\<close>

text \<open>An array of \<open>n\<close> rows and \<open>m\<close> columns, every row of length \<open>m\<close>.\<close>

definition is_matrix :: "nat \<Rightarrow> nat \<Rightarrow> 'a array2 \<Rightarrow> bool" where
  "is_matrix n m a = (length (rows a) = n \<and> cols a = m \<and> wf_array a)"

text \<open>
  What \<^verbatim>\<open>RBM.__init__\<close> establishes and \<open>train\<close> keeps: the dimensions are not negative and
  the weight matrix has one row per visible unit and one column per hidden unit, plus the
  bias row and the bias column.
\<close>

definition engine_ok :: "rbm \<Rightarrow> bool" where
  "engine_ok self = (0 \<le> num_visible self \<and> 0 \<le> num_hidden self \<and>
     is_matrix (nat (num_visible self) + 1) (nat (num_hidden self) + 1) (weights self))"

section \<open>The training step in the words of the specification\<close>

text \<open>
  The contrastive-divergence step as the specification writes it (section 4.2), entry by
  entry on matrices given as functions of row and column: the data augmented with a bias
  column of ones, the positive phase \<open>posHiddenProb = logistic (data \<cdot> W)\<close> with column 0 forced
  to 1, the sampled \<open>posHiddenState\<close>, the negative phase
  \<open>negVisibleProb = logistic (posHiddenState \<cdot> W\<^sup>T)\<close> with column 0 forced to 1 and
  \<open>negHiddenProb = logistic (negVisibleProb \<cdot> W)\<close>, and the update
  \<open>W + learningRate \<cdot> (data\<^sup>T \<cdot> posHiddenProb - negVisibleProb\<^sup>T \<cdot> negHiddenProb) / N\<close>.
  \<open>V\<close> and \<open>H\<close> are the numbers of visible and hidden units, \<open>u n j\<close> the uniform draw that
  entry \<open>(n, j)\<close> of \<open>posHiddenProb\<close> is compared with.
\<close>

definition spec_augment :: "(nat \<Rightarrow> nat \<Rightarrow> real) \<Rightarrow> nat \<Rightarrow> nat \<Rightarrow> real" where
  "spec_augment X n k = (if k = 0 then 1 else X n (k - 1))"

definition spec_matmul :: "nat \<Rightarrow> (nat \<Rightarrow> nat \<Rightarrow> real) \<Rightarrow> (nat \<Rightarrow> nat \<Rightarrow> real) \<Rightarrow> nat \<Rightarrow> nat \<Rightarrow> real" where
  "spec_matmul K A B i j = (\<Sum>l<K. A i l * B l j)"

definition spec_transpose :: "(nat \<Rightarrow> nat \<Rightarrow> real) \<Rightarrow> nat \<Rightarrow> nat \<Rightarrow> real" where
  "spec_transpose A i j = A j i"

definition spec_pin0 :: "(nat \<Rightarrow> nat \<Rightarrow> real) \<Rightarrow> nat \<Rightarrow> nat \<Rightarrow> real" where
  "spec_pin0 P n j = (if j = 0 then 1 else P n j)"

definition spec_posHiddenProb :: "nat \<Rightarrow> (nat \<Rightarrow> nat \<Rightarrow> real) \<Rightarrow> (nat \<Rightarrow> nat \<Rightarrow> real) \<Rightarrow> nat \<Rightarrow> nat \<Rightarrow> real" where
  "spec_posHiddenProb V W X =
     spec_pin0 (\<lambda>n j. logistic (spec_matmul (Suc V) (spec_augment X) W n j))"

definition spec_posHiddenState ::
  "nat \<Rightarrow> (nat \<Rightarrow> nat \<Rightarrow> real) \<Rightarrow> (nat \<Rightarrow> nat \<Rightarrow> real) \<Rightarrow> (nat \<Rightarrow> nat \<Rightarrow> real) \<Rightarrow> nat \<Rightarrow> nat \<Rightarrow> real" where
  "spec_posHiddenState V W X u n j = (if spec_posHiddenProb V W X n j > u n j then 1 else 0)"

definition spec_negVisibleProb ::
  "nat \<Rightarrow> nat \<Rightarrow> (nat \<Rightarrow> nat \<Rightarrow> real) \<Rightarrow> (nat \<Rightarrow> nat \<Rightarrow> real) \<Rightarrow> (nat \<Rightarrow> nat \<Rightarrow> real) \<Rightarrow> nat \<Rightarrow> nat \<Rightarrow> real" where
  "spec_negVisibleProb V H W X u =
     spec_pin0 (\<lambda>n i. logistic (spec_matmul (Suc H) (spec_posHiddenState V W X u) (spec_transpose W) n i))"

definition spec_negHiddenProb ::
  "nat \<Rightarrow> nat \<Rightarrow> (nat \<Rightarrow> nat \<Rightarrow> real) \<Rightarrow> (nat \<Rightarrow> nat \<Rightarrow> real) \<Rightarrow> (nat \<Rightarrow> nat \<Rightarrow> real) \<Rightarrow> nat \<Rightarrow> nat \<Rightarrow> real" where
  "spec_negHiddenProb V H W X u n j =
     logistic (spec_matmul (Suc V) (spec_negVisibleProb V H W X u) W n j)"

definition spec_update ::
  "nat \<Rightarrow> nat \<Rightarrow> nat \<Rightarrow> real \<Rightarrow> (nat \<Rightarrow> nat \<Rightarrow> real) \<Rightarrow> (nat \<Rightarrow> nat \<Rightarrow> real) \<Rightarrow> (nat \<Rightarrow> nat \<Rightarrow> real) \<Rightarrow> nat \<Rightarrow> nat \<Rightarrow> real" where
  "spec_update V H N lr W X u i j =
     W i j + lr * (spec_matmul N (spec_transpose (spec_augment X)) (spec_posHiddenProb V W X) i j
                 - spec_matmul N (spec_transpose (spec_negVisibleProb V H W X u)) (spec_negHiddenProb V H W X u) i j)
             / real N"

text \<open>
  The draws of one epoch, as \<^verbatim>\<open>np.random.rand(num_examples, num_hidden + 1)\<close> lays them
  out: row by row, from the current position of the process-wide generator.
\<close>

definition epoch_draws :: "nat \<Rightarrow> rng \<Rightarrow> nat \<Rightarrow> nat \<Rightarrow> real" where
  "epoch_draws H g n j = g (n * Suc H + j)"

section \<open>Concrete inputs\<close>

text \<open>
  A generator whose every draw is \<open>1/2\<close> in place of \<^verbatim>\<open>RandomState\<close>, an environment whose
  every draw is \<open>3/4\<close>, and the engine that \<^verbatim>\<open>RBM(1, 1)\<close> constructs from the former (all
  weights zero).
\<close>

definition RandomState0 :: "int \<Rightarrow> rng" where
  "RandomState0 seed = (\<lambda>i. 1 / 2)"

definition env0 :: env where
  "env0 = \<lparr>np_random = (\<lambda>i. 3 / 4), stdout = []\<rparr>"

definition rbm0 :: rbm where
  "rbm0 = \<lparr>num_hidden = 1, num_visible = 1, debug_print = True,
           weights = \<lparr>cols = 2, rows = [[0, 0], [0, 0]]\<rparr>\<rparr>"

section \<open>Array operations on well-shaped arguments\<close>

lemma is_matrixI:
  "length (rows a) = n \<Longrightarrow> cols a = m \<Longrightarrow> (\<And>r. r \<in> set (rows a) \<Longrightarrow> length r = m) \<Longrightarrow> is_matrix n m a"
  by (simp add: is_matrix_def wf_array_def list_all_iff)

lemma is_matrix_rows: "is_matrix n m a \<Longrightarrow> length (rows a) = n"
  and is_matrix_cols: "is_matrix n m a \<Longrightarrow> cols a = m"
  and is_matrix_row: "is_matrix n m a \<Longrightarrow> r \<in> set (rows a) \<Longrightarrow> length r = m"
  and is_matrix_nth: "is_matrix n m a \<Longrightarrow> i < n \<Longrightarrow> length (rows a ! i) = m"
  by (auto simp add: is_matrix_def wf_array_def list_all_iff)

lemma is_matrix_shape: "is_matrix n m a \<Longrightarrow> shape a = (n, m) \<and> wf_array a"
  by (simp add: is_matrix_def shape_def)

lemma array_eqI: "cols a = cols b \<Longrightarrow> rows a = rows b \<Longrightarrow> a = (b :: 'a array2)"
  by simp

lemma is_matrix_insert_col0: "is_matrix n m a \<Longrightarrow> is_matrix n (Suc m) (insert_col0 v a)"
  by (auto simp add: is_matrix_def wf_array_def list_all_iff insert_col0_def)

lemma at2_insert_col0:
  "i < length (rows a) \<Longrightarrow> at2 (insert_col0 v a) i j = (if j = 0 then v else at2 a i (j - 1))"
  by (cases j) (simp_all add: at2_def insert_col0_def)

lemma is_matrix_T: "is_matrix n m a \<Longrightarrow> is_matrix m n (T a)"
  by (auto simp add: is_matrix_def wf_array_def list_all_iff T_def)

lemma at2_T: "is_matrix n m a \<Longrightarrow> i < n \<Longrightarrow> j < m \<Longrightarrow> at2 (T a) j i = at2 a i j"
  by (simp add: is_matrix_def T_def at2_def)

lemma is_matrix_map_array: "is_matrix n m a \<Longrightarrow> is_matrix n m (map_array f a)"
  by (auto simp add: is_matrix_def wf_array_def list_all_iff map_array_def)

lemma at2_map_array:
  "is_matrix n m a \<Longrightarrow> i < n \<Longrightarrow> j < m \<Longrightarrow> at2 (map_array f a) i j = f (at2 a i j)"
  by (simp add: is_matrix_def wf_array_def list_all_iff map_array_def at2_def)

lemma is_matrix_drop_col0: "is_matrix n m a \<Longrightarrow> is_matrix n (m - 1) (drop_col0 a)"
  by (auto simp add: is_matrix_def wf_array_def list_all_iff drop_col0_def)

lemma at2_drop_col0:
  "is_matrix n m a \<Longrightarrow> i < n \<Longrightarrow> Suc j < m \<Longrightarrow> at2 (drop_col0 a) i j = at2 a i (Suc j)"
  by (simp add: is_matrix_def wf_array_def list_all_iff drop_col0_def at2_def)

lemma inner_sum: "length x = length y \<Longrightarrow> inner x y = (\<Sum>l<length x. x ! l * y ! l)"
proof -
  assume l: "length x = length y"
  have "inner x y = (\<Sum>i = 0..<length (map2 (*) x y). map2 (*) x y ! i)"
    unfolding inner_def by (rule sum_list_sum_nth)
  also have "\<dots> = (\<Sum>i = 0..<length x. x ! i * y ! i)"
    using l by (intro sum.cong) auto
  finally show ?thesis by (simp add: lessThan_atLeast0)
qed

lemma dot_ok:
  assumes "is_matrix n k a" "is_matrix k m b"
  shows "\<exists>c. dot a b = Inr c \<and> is_matrix n m c \<and>
     (\<forall>i<n. \<forall>j<m. at2 c i j = (\<Sum>l<k. at2 a i l * at2 b l j))"
proof -
  let ?c = "\<lparr>cols = cols b, rows = map (\<lambda>r. map (inner r) (rows (T b))) (rows a)\<rparr>"
  have d: "dot a b = Inr ?c" using assms by (simp add: dot_def is_matrix_def)
  have m: "is_matrix n m ?c"
    using assms by (intro is_matrixI) (auto simp add: is_matrix_def T_def)
  have e: "at2 ?c i j = (\<Sum>l<k. at2 a i l * at2 b l j)" if "i < n" "j < m" for i j
  proof -
    have la: "length (rows a ! i) = k" using is_matrix_nth[OF assms(1) that(1)] .
    have "at2 ?c i j = inner (rows a ! i) (map (\<lambda>r. r ! j) (rows b))"
      using assms that by (simp add: at2_def is_matrix_def T_def)
    also have "\<dots> = (\<Sum>l<k. rows a ! i ! l * map (\<lambda>r. r ! j) (rows b) ! l)"
      using inner_sum[of "rows a ! i" "map (\<lambda>r. r ! j) (rows b)"] la assms(2)
      by (simp add: is_matrix_def)
    also have "\<dots> = (\<Sum>l<k. at2 a i l * at2 b l j)"
      using assms(2) by (intro sum.cong) (auto simp add: at2_def is_matrix_def)
    finally show ?thesis .
  qed
  show ?thesis using d m e by blast
qed

lemma dot_mismatch: "cols a \<noteq> length (rows b) \<Longrightarrow> dot a b = Inl ValueError"
  by (simp add: dot_def)

lemma set_col0_ok:
  assumes "is_matrix n (Suc m) a"
  shows "\<exists>c. set_col0 v a = Inr c \<and> is_matrix n (Suc m) c \<and>
     (\<forall>i<n. \<forall>j\<le>m. at2 c i j = (if j = 0 then v else at2 a i j))"
proof -
  let ?c = "\<lparr>cols = cols a, rows = map (\<lambda>r. r[0 := v]) (rows a)\<rparr>"
  have d: "set_col0 v a = Inr ?c" using assms by (simp add: set_col0_def is_matrix_def)
  have m: "is_matrix n (Suc m) ?c"
    using assms by (intro is_matrixI) (auto simp add: is_matrix_def wf_array_def list_all_iff)
  have e: "at2 ?c i j = (if j = 0 then v else at2 a i j)" if "i < n" "j \<le> m" for i j
    using assms that is_matrix_nth[OF assms, of i]
    by (auto simp add: at2_def is_matrix_def)
  show ?thesis using d m e by blast
qed

lemma rand2_ok:
  "0 \<le> m \<Longrightarrow> \<exists>u. rand2 (int n) m g = Inr (u, advance (n * nat m) g) \<and> is_matrix n (nat m) u \<and>
     (\<forall>i<n. \<forall>j<nat m. at2 u i j = g (i * nat m + j))"
  by (auto simp add: rand2_def is_matrix_def wf_array_def list_all_iff at2_def)

lemma stretch_same: "length xs = n \<Longrightarrow> stretch n xs = xs"
  by (simp add: stretch_def)

lemma broadcast_to_same: "is_matrix n m a \<Longrightarrow> broadcast_to n m a = a"
proof -
  assume a: "is_matrix n m a"
  have "map (stretch m) (rows a) = rows a"
    using a by (intro map_idI) (auto simp add: is_matrix_def wf_array_def list_all_iff stretch_def)
  then show ?thesis using a by (simp add: broadcast_to_def is_matrix_def stretch_same)
qed

lemma binop2_ok:
  assumes "is_matrix n m a" "is_matrix n m b"
  shows "\<exists>c. binop2 f a b = Inr c \<and> is_matrix n m c \<and>
     (\<forall>i<n. \<forall>j<m. at2 c i j = f (at2 a i j) (at2 b i j))"
proof -
  let ?c = "\<lparr>cols = m, rows = map2 (map2 f) (rows a) (rows b)\<rparr>"
  have d: "binop2 f a b = Inr ?c"
    using assms broadcast_to_same[OF assms(1)] broadcast_to_same[OF assms(2)]
    by (simp add: binop2_def bdim_def is_matrix_def)
  have m: "is_matrix n m ?c"
  proof (rule is_matrixI)
    show "length (rows ?c) = n" using assms by (simp add: is_matrix_def)
    show "cols ?c = m" by simp
    fix r assume "r \<in> set (rows ?c)"
    then obtain i where i: "i < n" "r = map2 f (rows a ! i) (rows b ! i)"
      using assms by (auto simp add: in_set_conv_nth is_matrix_def)
    then show "length r = m"
      using is_matrix_nth[OF assms(1), of i] is_matrix_nth[OF assms(2), of i] by simp
  qed
  have e: "at2 ?c i j = f (at2 a i j) (at2 b i j)" if "i < n" "j < m" for i j
    using that assms is_matrix_nth[OF assms(1), of i] is_matrix_nth[OF assms(2), of i]
    by (simp add: at2_def is_matrix_def)
  show ?thesis using d m e by blast
qed

lemma iadd2_ok:
  assumes "is_matrix n m t" "is_matrix n m s"
  shows "\<exists>c. iadd2 t s = Inr c \<and> is_matrix n m c \<and>
     (\<forall>i<n. \<forall>j<m. at2 c i j = at2 t i j + at2 s i j)"
proof -
  let ?c = "\<lparr>cols = cols t, rows = map2 (map2 (+)) (rows t) (rows s)\<rparr>"
  have d: "iadd2 t s = Inr ?c"
    using assms broadcast_to_same[OF assms(2)]
    by (simp add: iadd2_def fits_def is_matrix_def)
  have m: "is_matrix n m ?c"
  proof (rule is_matrixI)
    show "length (rows ?c) = n" using assms by (simp add: is_matrix_def)
    show "cols ?c = m" using assms by (simp add: is_matrix_def)
    fix r assume "r \<in> set (rows ?c)"
    then obtain i where i: "i < n" "r = map2 (+) (rows t ! i) (rows s ! i)"
      using assms by (auto simp add: in_set_conv_nth is_matrix_def)
    then show "length r = m"
      using is_matrix_nth[OF assms(1), of i] is_matrix_nth[OF assms(2), of i] by simp
  qed
  have e: "at2 ?c i j = at2 t i j + at2 s i j" if "i < n" "j < m" for i j
    using that assms is_matrix_nth[OF assms(1), of i] is_matrix_nth[OF assms(2), of i]
    by (simp add: at2_def is_matrix_def)
  show ?thesis using d m e by blast
qed

lemma assign2_ok: "is_matrix n m t \<Longrightarrow> is_matrix n m s \<Longrightarrow> assign2 t s = Inr s"
  using broadcast_to_same[of n m s] by (simp add: assign2_def fits_def is_matrix_def)

lemma ones2_ok: "0 \<le> m \<Longrightarrow> \<exists>c. ones2 (int n) m = Inr c \<and> is_matrix n (nat m) c"
  by (auto simp add: ones2_def is_matrix_def wf_array_def list_all_iff)

lemma is_matrix_11: "is_matrix 1 (nat 1) \<lparr>cols = 1, rows = [[1::real]]\<rparr>"
  by (simp add: is_matrix_def wf_array_def)

lemma dot1_ok:
  assumes "length v = k" "is_matrix k m b"
  shows "\<exists>c. dot1 v b = Inr c \<and> length c = m \<and> (\<forall>j<m. c ! j = (\<Sum>l<k. v ! l * at2 b l j))"
proof -
  let ?c = "map (inner v) (rows (T b))"
  have d: "dot1 v b = Inr ?c" using assms by (simp add: dot1_def is_matrix_def)
  have l: "length ?c = m" using assms by (simp add: T_def is_matrix_def)
  have e: "?c ! j = (\<Sum>l<k. v ! l * at2 b l j)" if "j < m" for j
  proof -
    have "?c ! j = inner v (map (\<lambda>r. r ! j) (rows b))"
      using assms that by (simp add: is_matrix_def T_def)
    also have "\<dots> = (\<Sum>l<k. v ! l * map (\<lambda>r. r ! j) (rows b) ! l)"
      using inner_sum[of v "map (\<lambda>r. r ! j) (rows b)"] assms by (simp add: is_matrix_def)
    also have "\<dots> = (\<Sum>l<k. v ! l * at2 b l j)"
      using assms(2) by (intro sum.cong) (auto simp add: at2_def is_matrix_def)
    finally show ?thesis .
  qed
  show ?thesis using d l e by blast
qed

lemma rand1_ok: "0 \<le> n \<Longrightarrow> rand1 n g = Inr (map g [0..<nat n], advance (nat n) g)"
  by (simp add: rand1_def)

lemma binop1_same: "length x = length y \<Longrightarrow> binop1 f x y = Inr (map2 f x y)"
  by (simp add: binop1_def bdim_def stretch_def)

lemma assign1_same: "length s = length t \<Longrightarrow> assign1 t s = Inr s"
  by (simp add: assign1_def fits_def stretch_def)

lemma as_float_01: "as_float b = 0 \<or> as_float b = 1"
  by (simp add: as_float_def)

section \<open>Construction\<close>

lemma uniform_ok:
  "0 \<le> n \<Longrightarrow> 0 \<le> m \<Longrightarrow> uniform g (Some lo) (Some hi) n m =
     Inr \<lparr>cols = nat m,
          rows = map (\<lambda>i. map (\<lambda>j. lo + (hi - lo) * g (i * nat m + j)) [0..<nat m]) [0..<nat n]\<rparr>"
  by (simp add: uniform_def rand2_def comp_def)

lemma RBM_init_ok:
  assumes "0 \<le> nv" "0 \<le> nh" "nh + nv \<noteq> 0"
  shows "RBM_init RandomState nv nh e =
     (Inr \<lparr>num_hidden = nh, num_visible = nv, debug_print = True,
           weights = insert_col0 0 (insert_row0 0
             \<lparr>cols = nat nh,
              rows = map (\<lambda>i. map (\<lambda>j. - (0.1 * sqrt (6 / real_of_int (nh + nv)))
                       + (0.1 * sqrt (6 / real_of_int (nh + nv)) - - (0.1 * sqrt (6 / real_of_int (nh + nv))))
                         * RandomState 1234 (i * nat nh + j)) [0..<nat nh]) [0..<nat nv]\<rparr>)\<rparr>, e)"
proof -
  have "0 \<le> 6 / real_of_int (nh + nv)" using assms by simp
  then have s: "np_sqrt (6 / real_of_int (nh + nv)) = Some (sqrt (6 / real_of_int (nh + nv)))"
    by (simp add: np_sqrt_def)
  show ?thesis
    unfolding RBM_init_def Let_def s using assms
    by (simp add: uniform_ok)
qed

lemma init_entry_bias_row:
  "j \<le> m \<Longrightarrow> at2 (insert_col0 (0::real) (insert_row0 0 \<lparr>cols = m, rows = rs\<rparr>)) 0 j = 0"
  by (cases j) (simp_all add: at2_def insert_col0_def insert_row0_def)

lemma init_entry_bias_col:
  "i \<le> length rs \<Longrightarrow> at2 (insert_col0 (0::real) (insert_row0 0 \<lparr>cols = m, rows = rs\<rparr>)) i 0 = 0"
  by (cases i) (simp_all add: at2_def insert_col0_def insert_row0_def)

lemma init_entry_interior:
  "i < length rs \<Longrightarrow>
   at2 (insert_col0 (0::real) (insert_row0 0 \<lparr>cols = m, rows = rs\<rparr>)) (Suc i) (Suc j) = rs ! i ! j"
  by (simp add: at2_def insert_col0_def insert_row0_def)

lemma init_shape:
  "shape (insert_col0 v (insert_row0 v \<lparr>cols = m, rows = rs\<rparr>)) = (length rs + 1, m + 1)"
  by (simp add: shape_def insert_col0_def insert_row0_def)

lemma init_wf:
  "wf_array \<lparr>cols = m, rows = rs\<rparr> \<Longrightarrow> wf_array (insert_col0 v (insert_row0 v \<lparr>cols = m, rows = rs\<rparr>))"
  by (simp add: wf_array_def insert_col0_def insert_row0_def list_all_iff)

lemma uniform_bound:
  fixes b u :: real
  assumes "0 \<le> b" "0 \<le> u" "u < 1"
  shows "\<bar>- b + (b - - b) * u\<bar> \<le> b"
proof -
  have "- b + (b - - b) * u = b * (2 * u - 1)" by (simp add: algebra_simps)
  moreover have "\<bar>2 * u - 1\<bar> \<le> 1" using assms by (simp add: abs_le_iff)
  ultimately show ?thesis using assms
    by (metis abs_mult abs_of_nonneg mult.right_neutral mult_left_mono)
qed

text \<open>
  C4: for positive \<open>num_visible\<close> and \<open>num_hidden\<close> (and generator draws in \<open>[0, 1)\<close>),
  construction succeeds with a weight matrix of shape \<open>(num_visible + 1) \<times> (num_hidden + 1)\<close>
  whose row 0 and column 0 are zero and whose interior entries lie within
  \<open>0.1 * sqrt (6 / (num_hidden + num_visible))\<close> of zero.
\<close>

theorem init_weights:
  assumes "0 < nv" "0 < nh" "uniform01 (RandomState 1234)"
  shows "\<exists>r. fst (RBM_init RandomState nv nh e) = Inr r
     \<and> num_visible r = nv \<and> num_hidden r = nh
     \<and> shape (weights r) = (nat nv + 1, nat nh + 1) \<and> wf_array (weights r)
     \<and> (\<forall>j \<le> nat nh. at2 (weights r) 0 j = 0)
     \<and> (\<forall>i \<le> nat nv. at2 (weights r) i 0 = 0)
     \<and> (\<forall>i j. 1 \<le> i \<and> i \<le> nat nv \<and> 1 \<le> j \<and> j \<le> nat nh \<longrightarrow>
            \<bar>at2 (weights r) i j\<bar> \<le> 0.1 * sqrt (6 / real_of_int (nh + nv)))"
proof -
  define b where "b = 0.1 * sqrt (6 / real_of_int (nh + nv))"
  define g where "g = RandomState 1234"
  define rs where "rs = map (\<lambda>i. map (\<lambda>j. - b + (b - - b) * g (i * nat nh + j)) [0..<nat nh]) [0..<nat nv]"
  define r where "r = \<lparr>num_hidden = nh, num_visible = nv, debug_print = True,
           weights = insert_col0 0 (insert_row0 0 \<lparr>cols = nat nh, rows = rs\<rparr>)\<rparr>"
  have b0: "0 \<le> b" using assms by (simp add: b_def)
  have len: "length rs = nat nv" by (simp add: rs_def)
  have init: "RBM_init RandomState nv nh e = (Inr r, e)"
    using RBM_init_ok[of nv nh RandomState e] assms
    by (simp add: r_def rs_def b_def g_def)
  have w: "weights r = insert_col0 0 (insert_row0 0 \<lparr>cols = nat nh, rows = rs\<rparr>)"
    by (simp add: r_def)
  have wf0: "wf_array \<lparr>cols = nat nh, rows = rs\<rparr>"
    by (simp add: wf_array_def rs_def list_all_iff)
  have interior: "\<bar>at2 (weights r) i j\<bar> \<le> b"
    if "1 \<le> i" "i \<le> nat nv" "1 \<le> j" "j \<le> nat nh" for i j
  proof -
    note h = that
    obtain i' where i: "i = Suc i'" using h(1) by (cases i) auto
    obtain j' where j: "j = Suc j'" using h(3) by (cases j) auto
    note ij = i j
    have lt: "i' < nat nv" "j' < nat nh" using h ij by auto
    have "at2 (weights r) i j = rs ! i' ! j'"
      unfolding w ij using lt len by (simp add: init_entry_interior)
    also have "\<dots> = - b + (b - - b) * g (i' * nat nh + j')"
      using lt by (simp add: rs_def)
    finally show ?thesis
      using uniform_bound[OF b0, of "g (i' * nat nh + j')"] assms(3)
      by (simp add: uniform01_def g_def)
  qed
  have "fst (RBM_init RandomState nv nh e) = Inr r" by (simp add: init)
  moreover have "num_visible r = nv" "num_hidden r = nh" by (simp_all add: r_def)
  moreover have "shape (weights r) = (nat nv + 1, nat nh + 1)"
    unfolding w by (simp add: init_shape len)
  moreover have "wf_array (weights r)" unfolding w by (rule init_wf[OF wf0])
  moreover have "\<forall>j \<le> nat nh. at2 (weights r) 0 j = 0"
    unfolding w by (simp add: init_entry_bias_row)
  moreover have "\<forall>i \<le> nat nv. at2 (weights r) i 0 = 0"
    unfolding w by (simp add: init_entry_bias_col len)
  ultimately show ?thesis using interior unfolding b_def by blast
qed

theorem init_weights_witness:
  "(0::int) < 1 \<and> uniform01 (RandomState0 1234) \<and>
   (\<exists>r. fst (RBM_init RandomState0 1 1 env0) = Inr r
     \<and> num_visible r = 1 \<and> num_hidden r = 1
     \<and> shape (weights r) = (nat 1 + 1, nat 1 + 1) \<and> wf_array (weights r)
     \<and> (\<forall>j \<le> nat 1. at2 (weights r) 0 j = 0)
     \<and> (\<forall>i \<le> nat 1. at2 (weights r) i 0 = 0)
     \<and> (\<forall>i j. 1 \<le> i \<and> i \<le> nat 1 \<and> 1 \<le> j \<and> j \<le> nat 1 \<longrightarrow>
            \<bar>at2 (weights r) i j\<bar> \<le> 0.1 * sqrt (6 / real_of_int (1 + 1))))"
proof -
  have u: "uniform01 (RandomState0 1234)" by (simp add: uniform01_def RandomState0_def)
  show ?thesis
    using init_weights[of 1 1 RandomState0 env0, OF _ _ u] u by simp
qed

lemma init_env: "snd (RBM_init RandomState nv nh e) = e"
  by (simp add: RBM_init_def Let_def split: sum.splits)

lemma sum_case_fst:
  "fst (case x of Inl err \<Rightarrow> (Inl err, e1) | Inr w \<Rightarrow> (Inr (f w), e1)) =
   fst (case x of Inl err \<Rightarrow> (Inl err, e2) | Inr w \<Rightarrow> (Inr (f w), e2))"
  by (cases x) simp_all

text \<open>
  C8: construction reads its draws from a generator of its own with the fixed seed 1234, so
  two constructions with the same dimensions give the same result (the same weight matrix),
  whatever the state of the rest of the process.
\<close>

theorem init_deterministic: "fst (RBM_init RandomState nv nh e1) = fst (RBM_init RandomState nv nh e2)"
proof (cases "nh + nv = 0")
  case True
  then show ?thesis by (simp add: RBM_init_def)
next
  case False
  then show ?thesis
    unfolding RBM_init_def Let_def by (simp only: if_False) (rule sum_case_fst)
qed

lemma RBM_init_engine_ok:
  assumes "fst (RBM_init RandomState nv nh e) = Inr r"
  shows "engine_ok r \<and> num_visible r = nv \<and> num_hidden r = nh"
proof -
  have nz: "nh + nv \<noteq> 0" using assms by (auto simp add: RBM_init_def)
  have pos: "\<not> nh + nv < 0"
  proof
    assume "nh + nv < 0"
    then have "6 / real_of_int (nh + nv) < 0" by (simp add: divide_neg_pos)
    then have "np_sqrt (6 / real_of_int (nh + nv)) = None" by (simp add: np_sqrt_def)
    then show False using assms nz by (simp add: RBM_init_def uniform_def)
  qed
  have nn: "0 \<le> nv \<and> 0 \<le> nh"
  proof (rule ccontr)
    assume "\<not> (0 \<le> nv \<and> 0 \<le> nh)"
    then have "rand2 nv nh (RandomState 1234) = Inl ValueError" by (auto simp add: rand2_def)
    moreover have "np_sqrt (6 / real_of_int (nh + nv)) = Some (sqrt (6 / real_of_int (nh + nv)))"
      using pos nz by (simp add: np_sqrt_def)
    ultimately show False using assms nz by (simp add: RBM_init_def uniform_def)
  qed
  let ?rs = "map (\<lambda>i. map (\<lambda>j. - (0.1 * sqrt (6 / real_of_int (nh + nv)))
                       + (0.1 * sqrt (6 / real_of_int (nh + nv)) - - (0.1 * sqrt (6 / real_of_int (nh + nv))))
                         * RandomState 1234 (i * nat nh + j)) [0..<nat nh]) [0..<nat nv]"
  have r: "r = \<lparr>num_hidden = nh, num_visible = nv, debug_print = True,
           weights = insert_col0 0 (insert_row0 0 \<lparr>cols = nat nh, rows = ?rs\<rparr>)\<rparr>"
    using assms RBM_init_ok[of nv nh RandomState e] nn nz by simp
  have wf0: "wf_array \<lparr>cols = nat nh, rows = ?rs\<rparr>"
    by (simp add: wf_array_def list_all_iff)
  have "is_matrix (nat nv + 1) (nat nh + 1) (weights r)"
    unfolding r using init_shape[of 0 "nat nh" ?rs] init_wf[OF wf0, of 0]
    by (simp add: is_matrix_def shape_def)
  then show ?thesis using nn by (simp add: engine_ok_def r)
qed

lemma init_fails_iff:
  "isl (fst (RBM_init RandomState nv nh e)) = (nv < 0 \<or> nh < 0 \<or> nv + nh = 0)"
proof (cases "nv < 0 \<or> nh < 0 \<or> nv + nh = 0")
  case True
  have "\<not> (\<exists>r. fst (RBM_init RandomState nv nh e) = Inr r)"
  proof
    assume "\<exists>r. fst (RBM_init RandomState nv nh e) = Inr r"
    then obtain r where r: "fst (RBM_init RandomState nv nh e) = Inr r" by blast
    have "engine_ok r \<and> num_visible r = nv \<and> num_hidden r = nh"
      using RBM_init_engine_ok[OF r] .
    moreover have "nh + nv \<noteq> 0" using r by (auto simp add: RBM_init_def)
    ultimately show False using True by (auto simp add: engine_ok_def)
  qed
  then have "isl (fst (RBM_init RandomState nv nh e))"
    by (cases "fst (RBM_init RandomState nv nh e)") auto
  then show ?thesis using True by simp
next
  case False
  then have "0 \<le> nv" "0 \<le> nh" "nh + nv \<noteq> 0" by auto
  then show ?thesis using RBM_init_ok[of nv nh RandomState e] False by simp
qed

lemma engine_ok_rbm0: "engine_ok rbm0"
  by (simp add: engine_ok_def rbm0_def is_matrix_def wf_array_def)

lemma logistic_0: "logistic 0 = 1 / 2"
  by (simp add: logistic_def)

lemma rbm0_constructed: "RBM_init RandomState0 1 1 env0 = (Inr rbm0, env0)"
  by (simp add: RBM_init_def np_sqrt_def uniform_def rand2_def rbm0_def RandomState0_def insert_col0_def insert_row0_def)

section \<open>Inference and sampling\<close>

lemma run_visible_ok:
  assumes ok: "engine_ok self" and data: "is_matrix N (nat (num_visible self)) data"
  shows "\<exists>out. run_visible self data e =
           (Inr out, self, e\<lparr>np_random := advance (N * nat (num_hidden self + 1)) (np_random e)\<rparr>) \<and>
         is_matrix N (nat (num_hidden self)) out \<and>
         (\<forall>i<N. \<forall>j<nat (num_hidden self). at2 out i j = 0 \<or> at2 out i j = 1)"
proof -
  let ?V = "nat (num_visible self)" and ?H = "nat (num_hidden self)"
  have W: "is_matrix (Suc ?V) (Suc ?H) (weights self)" using ok by (simp add: engine_ok_def)
  have hp: "0 \<le> num_hidden self + 1" "nat (num_hidden self + 1) = Suc ?H"
    using ok by (simp_all add: engine_ok_def nat_add_distrib)
  have N: "length (rows data) = N" using data by (rule is_matrix_rows)
  obtain hs where hs: "ones2 (int N) (num_hidden self + 1) = Inr hs" "is_matrix N (Suc ?H) hs"
    using ones2_ok[OF hp(1), of N] hp(2) by auto
  have d1: "is_matrix N (Suc ?V) (insert_col0 1 data)"
    using data by (rule is_matrix_insert_col0)
  obtain ha where ha: "dot (insert_col0 1 data) (weights self) = Inr ha" "is_matrix N (Suc ?H) ha"
    using dot_ok[OF d1 W] by auto
  have p: "is_matrix N (Suc ?H) (map_array logistic ha)"
    using ha(2) by (rule is_matrix_map_array)
  obtain u where u: "rand2 (int N) (num_hidden self + 1) (np_random e) =
      Inr (u, advance (N * nat (num_hidden self + 1)) (np_random e))" "is_matrix N (Suc ?H) u"
    using rand2_ok[OF hp(1), of N "np_random e"] hp(2) by auto
  obtain b where b: "binop2 (>) (map_array logistic ha) u = Inr b" "is_matrix N (Suc ?H) b"
    using binop2_ok[OF p u(2), of "(>)"] by auto
  have fb: "is_matrix N (Suc ?H) (map_array as_float b)"
    using b(2) by (rule is_matrix_map_array)
  have asg: "assign2 hs (map_array as_float b) = Inr (map_array as_float b)"
    using hs(2) fb by (rule assign2_ok)
  let ?out = "drop_col0 (map_array as_float b)"
  have r: "run_visible self data e =
      (Inr ?out, self, e\<lparr>np_random := advance (N * nat (num_hidden self + 1)) (np_random e)\<rparr>)"
    by (simp add: run_visible_def N hs(1) ha(1) u(1) b(1) asg)
  have m: "is_matrix N ?H ?out" using is_matrix_drop_col0[OF fb] by simp
  have bin: "at2 ?out i j = 0 \<or> at2 ?out i j = 1" if "i < N" "j < ?H" for i j
  proof -
    have "at2 ?out i j = at2 (map_array as_float b) i (Suc j)"
      using that by (simp add: at2_drop_col0[OF fb])
    also have "\<dots> = as_float (at2 b i (Suc j))"
      using that by (simp add: at2_map_array[OF b(2)])
    finally show ?thesis using as_float_01 by simp
  qed
  show ?thesis using r m bin by blast
qed

lemma engine_ok_T:
  "engine_ok self \<Longrightarrow> is_matrix (Suc (nat (num_hidden self))) (Suc (nat (num_visible self))) (T (weights self))"
  by (simp add: engine_ok_def is_matrix_T)

lemma run_hidden_ok:
  assumes ok: "engine_ok self" and data: "is_matrix N (nat (num_hidden self)) data"
  shows "\<exists>out. run_hidden self data e =
           (Inr out, self, e\<lparr>np_random := advance (N * nat (num_visible self + 1)) (np_random e)\<rparr>) \<and>
         is_matrix N (nat (num_visible self)) out \<and>
         (\<forall>i<N. \<forall>j<nat (num_visible self). at2 out i j = 0 \<or> at2 out i j = 1)"
proof -
  let ?V = "nat (num_visible self)" and ?H = "nat (num_hidden self)"
  have W: "is_matrix (Suc ?H) (Suc ?V) (T (weights self))" using ok by (rule engine_ok_T)
  have hp: "0 \<le> num_visible self + 1" "nat (num_visible self + 1) = Suc ?V"
    using ok by (simp_all add: engine_ok_def nat_add_distrib)
  have N: "length (rows data) = N" using data by (rule is_matrix_rows)
  obtain hs where hs: "ones2 (int N) (num_visible self + 1) = Inr hs" "is_matrix N (Suc ?V) hs"
    using ones2_ok[OF hp(1), of N] hp(2) by auto
  have d1: "is_matrix N (Suc ?H) (insert_col0 1 data)"
    using data by (rule is_matrix_insert_col0)
  obtain ha where ha: "dot (insert_col0 1 data) (T (weights self)) = Inr ha" "is_matrix N (Suc ?V) ha"
    using dot_ok[OF d1 W] by auto
  have p: "is_matrix N (Suc ?V) (map_array logistic ha)"
    using ha(2) by (rule is_matrix_map_array)
  obtain u where u: "rand2 (int N) (num_visible self + 1) (np_random e) =
      Inr (u, advance (N * nat (num_visible self + 1)) (np_random e))" "is_matrix N (Suc ?V) u"
    using rand2_ok[OF hp(1), of N "np_random e"] hp(2) by auto
  obtain b where b: "binop2 (>) (map_array logistic ha) u = Inr b" "is_matrix N (Suc ?V) b"
    using binop2_ok[OF p u(2), of "(>)"] by auto
  have fb: "is_matrix N (Suc ?V) (map_array as_float b)"
    using b(2) by (rule is_matrix_map_array)
  have asg: "assign2 hs (map_array as_float b) = Inr (map_array as_float b)"
    using hs(2) fb by (rule assign2_ok)
  let ?out = "drop_col0 (map_array as_float b)"
  have r: "run_hidden self data e =
      (Inr ?out, self, e\<lparr>np_random := advance (N * nat (num_visible self + 1)) (np_random e)\<rparr>)"
    by (simp add: run_hidden_def N hs(1) ha(1) u(1) b(1) asg)
  have m: "is_matrix N ?V ?out" using is_matrix_drop_col0[OF fb] by simp
  have bin: "at2 ?out i j = 0 \<or> at2 ?out i j = 1" if "i < N" "j < ?V" for i j
  proof -
    have "at2 ?out i j = at2 (map_array as_float b) i (Suc j)"
      using that by (simp add: at2_drop_col0[OF fb])
    also have "\<dots> = as_float (at2 b i (Suc j))"
      using that by (simp add: at2_map_array[OF b(2)])
    finally show ?thesis using as_float_01 by simp
  qed
  show ?thesis using r m bin by blast
qed

lemma gibbs_step_ok:
  assumes ok: "engine_ok self"
    and s: "is_matrix K (Suc (nat (num_visible self))) samples"
    and i: "1 \<le> i" "i < K"
  shows "\<exists>bs e'. gibbs_step i (samples, self, e) =
            (Inr (), samples\<lparr>rows := (rows samples)[i := map as_float bs]\<rparr>, self, e') \<and>
          length bs = Suc (nat (num_visible self))"
proof -
  let ?V = "nat (num_visible self)" and ?H = "nat (num_hidden self)"
  have W: "is_matrix (Suc ?V) (Suc ?H) (weights self)" using ok by (simp add: engine_ok_def)
  have WT: "is_matrix (Suc ?H) (Suc ?V) (T (weights self))" using ok by (rule engine_ok_T)
  have hp: "0 \<le> num_hidden self + 1" "nat (num_hidden self + 1) = Suc ?H"
    and vp: "0 \<le> num_visible self + 1" "nat (num_visible self + 1) = Suc ?V"
    using ok by (simp_all add: engine_ok_def nat_add_distrib)
  let ?visible = "rows samples ! (i - 1)"
  have lv: "length ?visible = Suc ?V" using is_matrix_nth[OF s, of "i - 1"] i by simp
  have li: "length (rows samples ! i) = Suc ?V" using is_matrix_nth[OF s, of i] i by simp
  obtain ha where ha: "dot1 ?visible (weights self) = Inr ha" "length ha = Suc ?H"
    using dot1_ok[OF lv W] by auto
  let ?g1 = "advance (Suc ?H) (np_random e)"
  let ?u1 = "map (np_random e) [0..<Suc ?H]"
  have r1: "rand1 (num_hidden self + 1) (np_random e) = Inr (?u1, ?g1)"
    using rand1_ok[OF hp(1), of "np_random e"] hp(2) by simp
  let ?hs0 = "map2 (>) (map logistic ha) ?u1"
  have b1: "binop1 (>) (map logistic ha) ?u1 = Inr ?hs0"
    by (rule binop1_same) (simp add: ha(2))
  have ne: "?hs0 \<noteq> []" using ha(2) by (cases ha) auto
  let ?hs = "?hs0[0 := True]"
  have lhs: "length (map as_float ?hs) = Suc ?H" using ha(2) by simp
  obtain va where va: "dot1 (map as_float ?hs) (T (weights self)) = Inr va" "length va = Suc ?V"
    using dot1_ok[OF lhs WT] by auto
  let ?g2 = "advance (Suc ?V) ?g1"
  let ?u2 = "map ?g1 [0..<Suc ?V]"
  have r2: "rand1 (num_visible self + 1) (np_random (e\<lparr>np_random := ?g1\<rparr>)) = Inr (?u2, ?g2)"
    using rand1_ok[OF vp(1), of ?g1] vp(2) by simp
  let ?vs = "map2 (>) (map logistic va) ?u2"
  have b2: "binop1 (>) (map logistic va) ?u2 = Inr ?vs"
    by (rule binop1_same) (simp add: va(2))
  have lvs: "length ?vs = Suc ?V" using va(2) by simp
  have asg: "assign1 (rows samples ! i) (map as_float ?vs) = Inr (map as_float ?vs)"
    by (rule assign1_same) (simp add: li va(2))
  have "gibbs_step i (samples, self, e) =
      (Inr (), samples\<lparr>rows := (rows samples)[i := map as_float ?vs]\<rparr>, self,
       e\<lparr>np_random := ?g1\<rparr>\<lparr>np_random := ?g2\<rparr>)"
    unfolding gibbs_step_def Let_def
    by (simp only: fst_conv snd_conv ha(1) r1 b1 va(1) r2 b2 asg sum.case prod.case ne if_False)
  then show ?thesis using lvs by blast
qed

lemma is_matrix_update_row:
  "is_matrix K m a \<Longrightarrow> length r = m \<Longrightarrow> is_matrix K m (a\<lparr>rows := (rows a)[i := r]\<rparr>)"
  by (auto simp add: is_matrix_def wf_array_def list_all_iff dest!: set_update_subset_insert[THEN subsetD])

lemma gibbs_loop_ok:
  assumes ok: "engine_ok self"
  shows "is_matrix K (Suc (nat (num_visible self))) samples \<Longrightarrow> 1 \<le> i \<Longrightarrow> i + k \<le> K \<Longrightarrow>
    \<exists>samples' e'. gibbs_loop k i (samples, self, e) = (Inr (), samples', self, e') \<and>
       is_matrix K (Suc (nat (num_visible self))) samples' \<and>
       (\<forall>r<i. rows samples' ! r = rows samples ! r) \<and>
       (\<forall>r. i \<le> r \<and> r < i + k \<longrightarrow> (\<exists>bs. rows samples' ! r = map as_float bs))"
proof (induction k arbitrary: i samples e)
  case 0
  then show ?case by auto
next
  case (Suc k)
  have iK: "i < K" using Suc.prems by simp
  obtain bs e1 where st: "gibbs_step i (samples, self, e) =
       (Inr (), samples\<lparr>rows := (rows samples)[i := map as_float bs]\<rparr>, self, e1)"
     and lbs: "length bs = Suc (nat (num_visible self))"
    using gibbs_step_ok[OF ok Suc.prems(1) Suc.prems(2) iK, of e] by blast
  let ?s1 = "samples\<lparr>rows := (rows samples)[i := map as_float bs]\<rparr>"
  have m1: "is_matrix K (Suc (nat (num_visible self))) ?s1"
    using Suc.prems(1) lbs by (intro is_matrix_update_row) simp_all
  obtain samples' e' where lp: "gibbs_loop k (i + 1) (?s1, self, e1) = (Inr (), samples', self, e')"
    and m': "is_matrix K (Suc (nat (num_visible self))) samples'"
    and old: "\<forall>r<i + 1. rows samples' ! r = rows ?s1 ! r"
    and new: "\<forall>r. i + 1 \<le> r \<and> r < i + 1 + k \<longrightarrow> (\<exists>bs. rows samples' ! r = map as_float bs)"
    using Suc.IH[OF m1, of "i + 1" e1] Suc.prems by auto
  have len: "i < length (rows samples)" using Suc.prems(1) iK by (simp add: is_matrix_def)
  have a: "gibbs_loop (Suc k) i (samples, self, e) = (Inr (), samples', self, e')"
    by (simp only: gibbs_loop.simps st prod.case sum.case lp)
  have b: "\<forall>r<i. rows samples' ! r = rows samples ! r"
    using old by simp
  have ri: "rows samples' ! i = map as_float bs" using old len by simp
  have c: "\<exists>bs. rows samples' ! r = map as_float bs" if "i \<le> r" "r < i + Suc k" for r
  proof (cases "r = i")
    case True then show ?thesis using ri by blast
  next
    case False then show ?thesis using new that by simp
  qed
  show ?case using a m' b c by blast
qed

lemma daydream_ok:
  assumes ok: "engine_ok self" and k: "1 \<le> k"
  shows "\<exists>out e'. daydream self k e = (Inr out, self, e') \<and>
       is_matrix (nat k) (nat (num_visible self)) out \<and>
       rows out ! 0 = map (np_random e) [0..<nat (num_visible self)] \<and>
       (\<forall>i. 1 \<le> i \<and> i < nat k \<longrightarrow> (\<forall>x \<in> set (rows out ! i). x = 0 \<or> x = 1))"
proof -
  let ?V = "nat (num_visible self)"
  have vp: "0 \<le> num_visible self" "nat (num_visible self + 1) = Suc ?V"
    using ok by (simp_all add: engine_ok_def nat_add_distrib)
  let ?ones = "\<lparr>cols = Suc ?V, rows = replicate (nat k) (replicate (Suc ?V) (1::real))\<rparr>"
  have o: "ones2 k (num_visible self + 1) = Inr ?ones"
    using k vp by (simp add: ones2_def)
  let ?u = "map (np_random e) [0..<?V]"
  let ?g = "advance ?V (np_random e)"
  have r: "rand1 (num_visible self) (np_random e) = Inr (?u, ?g)"
    using rand1_ok[OF vp(1)] .
  obtain k' where k': "nat k = Suc k'" using k by (cases "nat k") auto
  have ne: "rows ?ones \<noteq> []" by (simp add: k')
  have row0: "rows ?ones ! 0 = replicate (Suc ?V) 1" by (simp add: k')
  have asg: "assign1 (drop 1 (rows ?ones ! 0)) ?u = Inr ?u"
    by (rule assign1_same) (simp add: k')
  let ?s0 = "?ones\<lparr>rows := (rows ?ones)[0 := take 1 (rows ?ones ! 0) @ ?u]\<rparr>"
  have ds: "daydream_samples self k e = gibbs_loop (nat (k - 1)) 1 (?s0, self, e\<lparr>np_random := ?g\<rparr>)"
    unfolding daydream_samples_def Let_def
    by (simp only: o r asg sum.case prod.case ne if_False)
  have mo: "is_matrix (nat k) (Suc ?V) ?ones"
    by (rule is_matrixI) auto
  have m0: "is_matrix (nat k) (Suc ?V) ?s0"
    using mo by (rule is_matrix_update_row) (simp add: k')
  have s00: "rows ?s0 ! 0 = 1 # ?u" by (simp add: k')
  have kk: "1 + nat (k - 1) \<le> nat k" using k by simp
  obtain samples' e' where lp: "gibbs_loop (nat (k - 1)) 1 (?s0, self, e\<lparr>np_random := ?g\<rparr>) = (Inr (), samples', self, e')"
    and m': "is_matrix (nat k) (Suc ?V) samples'"
    and old: "\<forall>r<1. rows samples' ! r = rows ?s0 ! r"
    and new: "\<forall>r. 1 \<le> r \<and> r < 1 + nat (k - 1) \<longrightarrow> (\<exists>bs. rows samples' ! r = map as_float bs)"
    using gibbs_loop_ok[OF ok m0 _ kk, of "e\<lparr>np_random := ?g\<rparr>"] by auto
  let ?out = "drop_col0 samples'"
  have d: "daydream self k e = (Inr ?out, self, e')"
    unfolding daydream_def ds lp by (simp only: prod.case sum.case)
  have mout: "is_matrix (nat k) ?V ?out" using is_matrix_drop_col0[OF m'] by simp
  have len': "length (rows samples') = nat k" using m' by (rule is_matrix_rows)
  have r0: "rows ?out ! 0 = ?u"
    using old s00 len' k' by (simp add: drop_col0_def)
  have bin: "\<forall>x \<in> set (rows ?out ! i). x = 0 \<or> x = 1" if "1 \<le> i" "i < nat k" for i
  proof -
    have "1 \<le> i \<and> i < 1 + nat (k - 1)" using that k by auto
    then obtain bs where bs: "rows samples' ! i = map as_float bs"
      using new by blast
    have "rows ?out ! i = drop 1 (map as_float bs)"
      using that len' bs by (simp add: drop_col0_def)
    then have "set (rows ?out ! i) \<subseteq> set (map as_float bs)"
      using set_drop_subset[of 1 "map as_float bs"] by simp
    then show ?thesis using as_float_01 by auto
  qed
  show ?thesis using d mout r0 bin by blast
qed

text \<open>
  C5: on a constructed engine, \<open>run_visible\<close> on an \<open>N \<times> num_visible\<close> matrix returns an
  \<open>N \<times> num_hidden\<close> matrix, \<open>run_hidden\<close> on an \<open>M \<times> num_hidden\<close> matrix returns an
  \<open>M \<times> num_visible\<close> matrix, and \<open>daydream k\<close> for \<open>k \<ge> 1\<close> returns a \<open>k \<times> num_visible\<close>
  matrix.
\<close>

theorem shape_contracts:
  assumes ok: "engine_ok self"
    and vd: "is_matrix N (nat (num_visible self)) vdata"
    and hd: "is_matrix M (nat (num_hidden self)) hdata"
    and k: "1 \<le> k"
  shows "(\<exists>out. fst (run_visible self vdata e) = Inr out \<and>
            shape out = (N, nat (num_hidden self)) \<and> wf_array out) \<and>
         (\<exists>out. fst (run_hidden self hdata e) = Inr out \<and>
            shape out = (M, nat (num_visible self)) \<and> wf_array out) \<and>
         (\<exists>out. fst (daydream self k e) = Inr out \<and>
            shape out = (nat k, nat (num_visible self)) \<and> wf_array out)"
proof -
  obtain o1 where "fst (run_visible self vdata e) = Inr o1" "is_matrix N (nat (num_hidden self)) o1"
    using run_visible_ok[OF ok vd, of e] by auto
  moreover obtain o2 where "fst (run_hidden self hdata e) = Inr o2" "is_matrix M (nat (num_visible self)) o2"
    using run_hidden_ok[OF ok hd, of e] by auto
  moreover obtain o3 where "fst (daydream self k e) = Inr o3" "is_matrix (nat k) (nat (num_visible self)) o3"
    using daydream_ok[OF ok k, of e] by auto
  ultimately show ?thesis using is_matrix_shape by blast
qed

theorem shape_contracts_witness:
  "engine_ok rbm0 \<and> is_matrix 1 (nat (num_visible rbm0)) \<lparr>cols = 1, rows = [[1::real]]\<rparr> \<and>
   is_matrix 1 (nat (num_hidden rbm0)) \<lparr>cols = 1, rows = [[1::real]]\<rparr> \<and> (1::int) \<le> 2 \<and>
   (\<exists>out. fst (run_visible rbm0 \<lparr>cols = 1, rows = [[1]]\<rparr> env0) = Inr out \<and>
            shape out = (1, nat (num_hidden rbm0)) \<and> wf_array out) \<and>
   (\<exists>out. fst (run_hidden rbm0 \<lparr>cols = 1, rows = [[1]]\<rparr> env0) = Inr out \<and>
            shape out = (1, nat (num_visible rbm0)) \<and> wf_array out) \<and>
   (\<exists>out. fst (daydream rbm0 2 env0) = Inr out \<and>
            shape out = (nat 2, nat (num_visible rbm0)) \<and> wf_array out)"
proof -
  have v: "is_matrix 1 (nat (num_visible rbm0)) \<lparr>cols = 1, rows = [[1::real]]\<rparr>"
    and h: "is_matrix 1 (nat (num_hidden rbm0)) \<lparr>cols = 1, rows = [[1::real]]\<rparr>"
    using is_matrix_11 by (simp_all add: rbm0_def)
  have k: "(1::int) \<le> 2" by simp
  show ?thesis
    using shape_contracts[OF engine_ok_rbm0 v h k, of env0] engine_ok_rbm0 v h k by blast
qed

text \<open>
  C6: for \<open>num_samples \<ge> 2\<close>, \<open>daydream\<close> returns a matrix whose rows \<open>1\<close> to
  \<open>num_samples - 1\<close> hold only 0 and 1 and whose row 0 is the raw uniform draws, so that
  row 0 is not binary as soon as one of these draws is neither 0 nor 1.
\<close>

theorem daydream_rows:
  assumes ok: "engine_ok self" and k: "2 \<le> k"
  shows "\<exists>out. fst (daydream self k e) = Inr out \<and>
       rows out ! 0 = map (np_random e) [0..<nat (num_visible self)] \<and>
       (\<forall>i. 1 \<le> i \<and> i < nat k \<longrightarrow> (\<forall>x \<in> set (rows out ! i). x = 0 \<or> x = 1)) \<and>
       ((\<exists>j<nat (num_visible self). np_random e j \<noteq> 0 \<and> np_random e j \<noteq> 1) \<longrightarrow>
          \<not> (\<forall>x \<in> set (rows out ! 0). x = 0 \<or> x = 1))"
proof -
  have k1: "1 \<le> k" using k by simp
  obtain out where out: "fst (daydream self k e) = Inr out"
    and r0: "rows out ! 0 = map (np_random e) [0..<nat (num_visible self)]"
    and bin: "\<forall>i. 1 \<le> i \<and> i < nat k \<longrightarrow> (\<forall>x \<in> set (rows out ! i). x = 0 \<or> x = 1)"
    using daydream_ok[OF ok k1, of e] by auto
  have "\<not> (\<forall>x \<in> set (rows out ! 0). x = 0 \<or> x = 1)"
    if "\<exists>j<nat (num_visible self). np_random e j \<noteq> 0 \<and> np_random e j \<noteq> 1"
  proof -
    note ex = that
    obtain j where j: "j < nat (num_visible self)" "np_random e j \<noteq> 0" "np_random e j \<noteq> 1"
      using ex by blast
    have "np_random e j \<in> set (rows out ! 0)" using j(1) by (simp add: r0)
    then show ?thesis using j(2,3) by blast
  qed
  then show ?thesis using out r0 bin by blast
qed

theorem daydream_rows_witness:
  "engine_ok rbm0 \<and> (2::int) \<le> 3 \<and>
   (\<exists>out. fst (daydream rbm0 3 env0) = Inr out \<and>
       rows out ! 0 = map (np_random env0) [0..<nat (num_visible rbm0)] \<and>
       (\<forall>i. 1 \<le> i \<and> i < nat 3 \<longrightarrow> (\<forall>x \<in> set (rows out ! i). x = 0 \<or> x = 1)) \<and>
       ((\<exists>j<nat (num_visible rbm0). np_random env0 j \<noteq> 0 \<and> np_random env0 j \<noteq> 1) \<longrightarrow>
          \<not> (\<forall>x \<in> set (rows out ! 0). x = 0 \<or> x = 1)))"
proof -
  have k: "(2::int) \<le> 3" by simp
  show ?thesis using daydream_rows[OF engine_ok_rbm0 k, of env0] engine_ok_rbm0 k by blast
qed

lemmas eval_defs = ones2_def rand1_def assign1_def fits_def stretch_def
    gibbs_step_def dot1_def T_def inner_def binop1_def bdim_def as_float_def advance_def
    logistic_0 Let_def

lemma step0: "daydream_samples rbm0 3 env0 = gibbs_loop 2 1 (\<lparr>cols = 2, rows = [[1, 3/4], [1, 1], [1, 1]]\<rparr>, rbm0, env0)"
  by (simp add: daydream_samples_def rbm0_def env0_def eval_defs eval_nat_numeral)

lemma step1: "gibbs_step 1 (\<lparr>cols = 2, rows = [[1, 3/4], [1, 1], [1, 1]]\<rparr>, rbm0, env0)
   = (Inr (), \<lparr>cols = 2, rows = [[1, 3/4], [0, 0], [1, 1]]\<rparr>, rbm0, env0)"
  by (simp add: rbm0_def env0_def eval_defs eval_nat_numeral)

lemma step2: "gibbs_step 2 (\<lparr>cols = 2, rows = [[1, 3/4], [0, 0], [1, 1]]\<rparr>, rbm0, env0)
   = (Inr (), \<lparr>cols = 2, rows = [[1, 3/4], [0, 0], [0, 0]]\<rparr>, rbm0, env0)"
  by (simp add: rbm0_def env0_def eval_defs eval_nat_numeral)

lemma daydream_samples_example:
  "daydream_samples rbm0 3 env0 = (Inr (), \<lparr>cols = 2, rows = [[1, 3/4], [0, 0], [0, 0]]\<rparr>, rbm0, env0)"
  using step1 step2 by (simp add: step0 eval_nat_numeral)

lemma daydream_example:
  "fst (daydream rbm0 3 env0) = Inr \<lparr>cols = 1, rows = [[3 / 4], [0], [0]]\<rparr>"
  by (simp add: daydream_def daydream_samples_example drop_col0_def)

text \<open>
  C2 (refuted on the code): in \<open>daydream\<close> the row taken as the current visible vector does
  not always have bias entry 1. On the engine \<^verbatim>\<open>RBM(1, 1)\<close> with every draw equal to \<open>3/4\<close>,
  \<^verbatim>\<open>daydream(3)\<close> leaves \<open>samples\<close> with rows \<open>[1, 3/4]\<close>, \<open>[0, 0]\<close>, \<open>[0, 0]\<close>: row 1, the
  visible vector of the pass \<open>i = 2\<close>, has bias entry 0, because line 117 samples the bias
  of the visible state like any other unit and nothing pins it, unlike the bias of the
  hidden state on line 113.
\<close>

theorem daydream_bias_unpinned:
  "RBM_init RandomState0 1 1 env0 = (Inr rbm0, env0) \<and>
   daydream_samples rbm0 3 env0 =
     (Inr (), \<lparr>cols = 2, rows = [[1, 3 / 4], [0, 0], [0, 0]]\<rparr>, rbm0, env0) \<and>
   rows (fst (snd (daydream_samples rbm0 3 env0))) ! 1 ! 0 = 0"
  by (simp add: rbm0_constructed daydream_samples_example)

section \<open>Frame\<close>

lemma run_visible_self: "fst (snd (run_visible self data e)) = self"
  by (simp add: run_visible_def Let_def split: sum.splits prod.splits)

lemma run_hidden_self: "fst (snd (run_hidden self data e)) = self"
  by (simp add: run_hidden_def Let_def split: sum.splits prod.splits)

lemma gibbs_step_self: "fst (snd (snd (gibbs_step i st))) = fst (snd st)"
  by (simp add: gibbs_step_def Let_def split: sum.splits prod.splits)

lemma gibbs_loop_self: "fst (snd (snd (gibbs_loop k i st))) = fst (snd st)"
proof (induction k arbitrary: i st)
  case 0 show ?case by simp
next
  case (Suc k)
  show ?case
  proof -
    obtain r st' where p: "gibbs_step i st = (r, st')" by (cases "gibbs_step i st") auto
    have s: "fst (snd st') = fst (snd st)" using gibbs_step_self[of i st] p by simp
    show ?thesis using Suc[of "i+1" st'] s p by (cases r) simp_all
  qed
qed

lemma daydream_samples_self: "fst (snd (snd (daydream_samples self n e))) = self"
  by (simp add: daydream_samples_def Let_def gibbs_loop_self split: sum.splits prod.splits)

lemma daydream_self: "fst (snd (daydream self n e)) = self"
  using daydream_samples_self[of self n e]
  by (auto simp add: daydream_def split: sum.splits prod.splits)

text \<open>
  C9: \<open>run_visible\<close>, \<open>run_hidden\<close> and \<open>daydream\<close> leave the engine (its weight matrix,
  \<open>num_visible\<close> and \<open>num_hidden\<close>) exactly as it was, whether they return or raise.
\<close>

theorem inference_frame:
  "fst (snd (run_visible self data e)) = self \<and>
   fst (snd (run_hidden self data e)) = self \<and>
   fst (snd (daydream self n e)) = self"
  by (simp add: run_visible_self run_hidden_self daydream_self)

section \<open>Training\<close>

lemma train_epoch_ok:
  assumes ok: "engine_ok self" and data: "is_matrix N (nat (num_visible self)) data" and N: "0 < N"
  shows "\<exists>W' err. train_epoch (insert_col0 1 data) N lr epoch (self, e) =
           (Inr (), self\<lparr>weights := W'\<rparr>,
            if debug_print self
            then e\<lparr>np_random := advance (N * Suc (nat (num_hidden self))) (np_random e)\<rparr>
                  \<lparr>stdout := stdout (e\<lparr>np_random := advance (N * Suc (nat (num_hidden self))) (np_random e)\<rparr>) @ [(epoch, err)]\<rparr>
            else e\<lparr>np_random := advance (N * Suc (nat (num_hidden self))) (np_random e)\<rparr>) \<and>
         is_matrix (Suc (nat (num_visible self))) (Suc (nat (num_hidden self))) W' \<and>
         (\<forall>i\<le>nat (num_visible self). \<forall>j\<le>nat (num_hidden self).
            at2 W' i j = spec_update (nat (num_visible self)) (nat (num_hidden self)) N lr
                           (at2 (weights self)) (at2 data)
                           (epoch_draws (nat (num_hidden self)) (np_random e)) i j)"
proof -
  let ?V = "nat (num_visible self)" and ?H = "nat (num_hidden self)"
  let ?W = "weights self" and ?D = "insert_col0 1 data"
  let ?g' = "advance (N * Suc ?H) (np_random e)"
  let ?e1 = "e\<lparr>np_random := ?g'\<rparr>"
  let ?X = "at2 data" and ?u = "epoch_draws ?H (np_random e)"
  have W: "is_matrix (Suc ?V) (Suc ?H) ?W" using ok by (simp add: engine_ok_def)
  have WT: "is_matrix (Suc ?H) (Suc ?V) (T ?W)" using ok by (rule engine_ok_T)
  have hp: "0 \<le> num_hidden self + 1" "nat (num_hidden self + 1) = Suc ?H"
    using ok by (simp_all add: engine_ok_def nat_add_distrib)
  have D: "is_matrix N (Suc ?V) ?D" using data by (rule is_matrix_insert_col0)
  have DT: "is_matrix (Suc ?V) N (T ?D)" using D by (rule is_matrix_T)
  have Dat: "at2 ?D n k = spec_augment ?X n k" if "n < N" for n k
    using that data by (simp add: at2_insert_col0 is_matrix_def spec_augment_def)
  \<comment> \<open>positive phase\<close>
  obtain pha where pha: "dot ?D ?W = Inr pha" "is_matrix N (Suc ?H) pha"
    "\<forall>n<N. \<forall>j<Suc ?H. at2 pha n j = (\<Sum>l<Suc ?V. at2 ?D n l * at2 ?W l j)"
    using dot_ok[OF D W] by blast
  have lp: "is_matrix N (Suc ?H) (map_array logistic pha)"
    using pha(2) by (rule is_matrix_map_array)
  obtain php where php: "set_col0 1 (map_array logistic pha) = Inr php" "is_matrix N (Suc ?H) php"
    "\<forall>n<N. \<forall>j\<le>?H. at2 php n j = (if j = 0 then 1 else at2 (map_array logistic pha) n j)"
    using set_col0_ok[OF lp, of 1] by blast
  have php_spec: "at2 php n j = spec_posHiddenProb ?V (at2 ?W) ?X n j" if "n < N" "j \<le> ?H" for n j
  proof -
    have "at2 pha n j = spec_matmul (Suc ?V) (spec_augment ?X) (at2 ?W) n j"
      using pha(3) that Dat[OF that(1)] by (simp add: spec_matmul_def)
    then show ?thesis
      using php(3) that at2_map_array[OF pha(2), of n j logistic]
      by (simp add: spec_posHiddenProb_def spec_pin0_def)
  qed
  obtain u where u: "rand2 (int N) (num_hidden self + 1) (np_random e) = Inr (u, ?g')"
    "is_matrix N (Suc ?H) u" "\<forall>n<N. \<forall>j<Suc ?H. at2 u n j = np_random e (n * Suc ?H + j)"
    using rand2_ok[OF hp(1), of N "np_random e"] hp(2) by auto
  obtain phs where phs: "binop2 (>) php u = Inr phs" "is_matrix N (Suc ?H) phs"
    "\<forall>n<N. \<forall>j<Suc ?H. at2 phs n j = (at2 php n j > at2 u n j)"
    using binop2_ok[OF php(2) u(2), of "(>)"] by blast
  have fphs: "is_matrix N (Suc ?H) (map_array as_float phs)"
    using phs(2) by (rule is_matrix_map_array)
  have phs_spec: "at2 (map_array as_float phs) n j = spec_posHiddenState ?V (at2 ?W) ?X ?u n j"
    if "n < N" "j \<le> ?H" for n j
    using that phs(3) u(3) php_spec[OF that] at2_map_array[OF phs(2), of n j as_float]
    by (simp add: spec_posHiddenState_def as_float_def epoch_draws_def)
  obtain pa where pa: "dot (T ?D) php = Inr pa" "is_matrix (Suc ?V) (Suc ?H) pa"
    "\<forall>i<Suc ?V. \<forall>j<Suc ?H. at2 pa i j = (\<Sum>n<N. at2 (T ?D) i n * at2 php n j)"
    using dot_ok[OF DT php(2)] by blast
  have pa_spec: "at2 pa i j = spec_matmul N (spec_transpose (spec_augment ?X)) (spec_posHiddenProb ?V (at2 ?W) ?X) i j"
    if "i \<le> ?V" "j \<le> ?H" for i j
  proof -
    have "at2 pa i j = (\<Sum>n<N. at2 (T ?D) i n * at2 php n j)" using pa(3) that by simp
    also have "\<dots> = (\<Sum>n<N. spec_augment ?X n i * spec_posHiddenProb ?V (at2 ?W) ?X n j)"
      using that by (intro sum.cong) (auto simp add: at2_T[OF D] Dat php_spec)
    finally show ?thesis by (simp add: spec_matmul_def spec_transpose_def)
  qed
  \<comment> \<open>negative phase\<close>
  obtain nva where nva: "dot (map_array as_float phs) (T ?W) = Inr nva" "is_matrix N (Suc ?V) nva"
    "\<forall>n<N. \<forall>i<Suc ?V. at2 nva n i = (\<Sum>l<Suc ?H. at2 (map_array as_float phs) n l * at2 (T ?W) l i)"
    using dot_ok[OF fphs WT] by blast
  have lnv: "is_matrix N (Suc ?V) (map_array logistic nva)"
    using nva(2) by (rule is_matrix_map_array)
  obtain nvp where nvp: "set_col0 1 (map_array logistic nva) = Inr nvp" "is_matrix N (Suc ?V) nvp"
    "\<forall>n<N. \<forall>i\<le>?V. at2 nvp n i = (if i = 0 then 1 else at2 (map_array logistic nva) n i)"
    using set_col0_ok[OF lnv, of 1] by blast
  have nvp_spec: "at2 nvp n i = spec_negVisibleProb ?V ?H (at2 ?W) ?X ?u n i" if "n < N" "i \<le> ?V" for n i
  proof -
    have "at2 nva n i = (\<Sum>l<Suc ?H. at2 (map_array as_float phs) n l * at2 (T ?W) l i)"
      using nva(3) that by simp
    also have "\<dots> = (\<Sum>l<Suc ?H. spec_posHiddenState ?V (at2 ?W) ?X ?u n l * at2 ?W i l)"
      using that by (intro sum.cong) (auto simp add: at2_T[OF W] phs_spec)
    finally have "at2 nva n i =
        spec_matmul (Suc ?H) (spec_posHiddenState ?V (at2 ?W) ?X ?u) (spec_transpose (at2 ?W)) n i"
      by (simp add: spec_matmul_def spec_transpose_def)
    then show ?thesis
      using nvp(3) that at2_map_array[OF nva(2), of n i logistic]
      by (simp add: spec_negVisibleProb_def spec_pin0_def)
  qed
  obtain nha where nha: "dot nvp ?W = Inr nha" "is_matrix N (Suc ?H) nha"
    "\<forall>n<N. \<forall>j<Suc ?H. at2 nha n j = (\<Sum>l<Suc ?V. at2 nvp n l * at2 ?W l j)"
    using dot_ok[OF nvp(2) W] by blast
  have nhp: "is_matrix N (Suc ?H) (map_array logistic nha)"
    using nha(2) by (rule is_matrix_map_array)
  have nhp_spec: "at2 (map_array logistic nha) n j = spec_negHiddenProb ?V ?H (at2 ?W) ?X ?u n j"
    if "n < N" "j \<le> ?H" for n j
  proof -
    have "at2 nha n j = (\<Sum>l<Suc ?V. at2 nvp n l * at2 ?W l j)" using nha(3) that by simp
    also have "\<dots> = (\<Sum>l<Suc ?V. spec_negVisibleProb ?V ?H (at2 ?W) ?X ?u n l * at2 ?W l j)"
      using that by (intro sum.cong) (auto simp add: nvp_spec)
    finally show ?thesis
      using that at2_map_array[OF nha(2), of n j logistic]
      by (simp add: spec_negHiddenProb_def spec_matmul_def)
  qed
  have nvpT: "is_matrix (Suc ?V) N (T nvp)" using nvp(2) by (rule is_matrix_T)
  obtain na where na: "dot (T nvp) (map_array logistic nha) = Inr na" "is_matrix (Suc ?V) (Suc ?H) na"
    "\<forall>i<Suc ?V. \<forall>j<Suc ?H. at2 na i j = (\<Sum>n<N. at2 (T nvp) i n * at2 (map_array logistic nha) n j)"
    using dot_ok[OF nvpT nhp] by blast
  have na_spec: "at2 na i j = spec_matmul N (spec_transpose (spec_negVisibleProb ?V ?H (at2 ?W) ?X ?u))
       (spec_negHiddenProb ?V ?H (at2 ?W) ?X ?u) i j" if "i \<le> ?V" "j \<le> ?H" for i j
  proof -
    have "at2 na i j = (\<Sum>n<N. at2 (T nvp) i n * at2 (map_array logistic nha) n j)"
      using na(3) that by simp
    also have "\<dots> = (\<Sum>n<N. spec_negVisibleProb ?V ?H (at2 ?W) ?X ?u n i * spec_negHiddenProb ?V ?H (at2 ?W) ?X ?u n j)"
      using that by (intro sum.cong) (auto simp add: at2_T[OF nvp(2)] nvp_spec nhp_spec)
    finally show ?thesis by (simp add: spec_matmul_def spec_transpose_def)
  qed
  \<comment> \<open>update\<close>
  obtain diff where diff: "binop2 (-) pa na = Inr diff" "is_matrix (Suc ?V) (Suc ?H) diff"
    "\<forall>i<Suc ?V. \<forall>j<Suc ?H. at2 diff i j = at2 pa i j - at2 na i j"
    using binop2_ok[OF pa(2) na(2), of "(-)"] by blast
  let ?delta = "map_array (\<lambda>x. lr * x) (map_array (\<lambda>x. x / real N) diff)"
  have dm1: "is_matrix (Suc ?V) (Suc ?H) (map_array (\<lambda>x. x / real N) diff)"
    using diff(2) by (rule is_matrix_map_array)
  have dm: "is_matrix (Suc ?V) (Suc ?H) ?delta"
    using dm1 by (rule is_matrix_map_array)
  obtain w where w: "iadd2 ?W ?delta = Inr w" "is_matrix (Suc ?V) (Suc ?H) w"
    "\<forall>i<Suc ?V. \<forall>j<Suc ?H. at2 w i j = at2 ?W i j + at2 ?delta i j"
    using iadd2_ok[OF W dm] by blast
  obtain d where d: "binop2 (-) ?D nvp = Inr d"
    using binop2_ok[OF D nvp(2), of "(-)"] by blast
  have N0: "N \<noteq> 0" using N by simp
  have w_spec: "at2 w i j = spec_update ?V ?H N lr (at2 ?W) ?X ?u i j" if "i \<le> ?V" "j \<le> ?H" for i j
  proof -
    have "at2 ?delta i j = lr * (at2 diff i j / real N)"
      using that by (simp add: at2_map_array[OF dm1] at2_map_array[OF diff(2)])
    then show ?thesis
      using w(3) diff(3) that pa_spec[OF that] na_spec[OF that]
      by (simp add: spec_update_def)
  qed
  let ?err = "np_sum (map_array (\<lambda>x. x ^ 2) d)"
  have "train_epoch ?D N lr epoch (self, e) =
      (Inr (), self\<lparr>weights := w\<rparr>,
       if debug_print (self\<lparr>weights := w\<rparr>) then ?e1\<lparr>stdout := stdout ?e1 @ [(epoch, ?err)]\<rparr> else ?e1)"
    unfolding train_epoch_def Let_def
    by (simp only: fst_conv snd_conv pha(1) php(1) u(1) phs(1) pa(1) nva(1) nvp(1) nha(1) na(1)
          diff(1) w(1) d sum.case prod.case N0 if_False)
  then show ?thesis using w(2) w_spec by auto
qed

lemma train_loop_add:
  "train_loop (a + b) D N lr ep st =
     (case train_loop a D N lr ep st of
        (Inl err, st') \<Rightarrow> (Inl err, st')
      | (Inr _, st') \<Rightarrow> train_loop b D N lr (ep + int a) st')"
proof (induction a arbitrary: ep st)
  case 0
  show ?case by simp
next
  case (Suc a)
  obtain r st1 where s: "train_epoch D N lr ep st = (r, st1)"
    by (cases "train_epoch D N lr ep st") auto
  show ?case
  proof (cases r)
    case (Inl err)
    then show ?thesis using s by simp
  next
    case (Inr x)
    have e: "ep + 1 + int a = ep + int (Suc a)" by simp
    show ?thesis using Inr s Suc.IH[of "ep + 1" st1] by (simp only: e add_Suc train_loop.simps prod.case sum.case)
  qed
qed

lemma engine_ok_weights:
  "engine_ok self \<Longrightarrow> is_matrix (Suc (nat (num_visible self))) (Suc (nat (num_hidden self))) W' \<Longrightarrow>
   engine_ok (self\<lparr>weights := W'\<rparr>)"
  by (simp add: engine_ok_def)

lemma train_loop_ok:
  assumes data: "is_matrix N (nat (num_visible self)) data" and N: "0 < N"
  shows "engine_ok self \<Longrightarrow>
    \<exists>self' e'. train_loop k (insert_col0 1 data) N lr ep (self, e) = (Inr (), self', e') \<and>
      engine_ok self' \<and> num_visible self' = num_visible self \<and> num_hidden self' = num_hidden self"
  using data
proof (induction k arbitrary: ep self e)
  case 0
  then show ?case by simp
next
  case (Suc k)
  obtain W' e1 where st: "train_epoch (insert_col0 1 data) N lr ep (self, e) = (Inr (), self\<lparr>weights := W'\<rparr>, e1)"
    and W': "is_matrix (Suc (nat (num_visible self))) (Suc (nat (num_hidden self))) W'"
    using train_epoch_ok[OF Suc.prems(1) Suc.prems(2) N, of lr ep e] by blast
  have ok1: "engine_ok (self\<lparr>weights := W'\<rparr>)"
    using Suc.prems(1) W' by (rule engine_ok_weights)
  have d1: "is_matrix N (nat (num_visible (self\<lparr>weights := W'\<rparr>))) data"
    using Suc.prems(2) by simp
  obtain self' e' where lp: "train_loop k (insert_col0 1 data) N lr (ep + 1) (self\<lparr>weights := W'\<rparr>, e1) = (Inr (), self', e')"
    and r: "engine_ok self'" "num_visible self' = num_visible self" "num_hidden self' = num_hidden self"
    using Suc.IH[OF ok1 d1, of "ep + 1" e1] by auto
  have "train_loop (Suc k) (insert_col0 1 data) N lr ep (self, e) = (Inr (), self', e')"
    by (simp only: train_loop.simps st prod.case sum.case lp)
  then show ?case using r by blast
qed

text \<open>
  C1: on data with \<open>num_visible\<close> columns and at least one row, every epoch \<open>k\<close> of a call of
  \<open>train\<close> with \<open>max_epochs > k\<close> starts from the engine that \<open>k\<close> epochs produce, succeeds,
  and replaces the weight matrix \<open>W\<close> by the matrix whose entries are those of the
  specification's update: the positive phase \<open>logistic (data \<cdot> W)\<close> and the negative phase
  \<open>logistic (posHiddenState \<cdot> W\<^sup>T)\<close>, each with column 0 forced to 1,
  \<open>negHiddenProb = logistic (negVisibleProb \<cdot> W)\<close>, and
  \<open>W + learning_rate \<cdot> (data\<^sup>T \<cdot> posHiddenProb - negVisibleProb\<^sup>T \<cdot> negHiddenProb) / N\<close>; the
  remaining epochs continue from there and the call returns without error.
\<close>

theorem train_each_epoch:
  assumes ok: "engine_ok self" and data: "is_matrix N (nat (num_visible self)) data"
    and N: "0 < N" and k: "int k < max_epochs"
  shows "\<exists>self_k e_k W' e'.
      train self data (int k) lr e = (Inr (), self_k, e_k) \<and>
      num_visible self_k = num_visible self \<and> num_hidden self_k = num_hidden self \<and>
      train_epoch (insert_col0 1 data) N lr (int k) (self_k, e_k) = (Inr (), self_k\<lparr>weights := W'\<rparr>, e') \<and>
      train self data max_epochs lr e =
        train_loop (nat max_epochs - Suc k) (insert_col0 1 data) N lr (int k + 1) (self_k\<lparr>weights := W'\<rparr>, e') \<and>
      fst (train self data max_epochs lr e) = Inr () \<and>
      shape W' = (nat (num_visible self) + 1, nat (num_hidden self) + 1) \<and> wf_array W' \<and>
      (\<forall>i\<le>nat (num_visible self). \<forall>j\<le>nat (num_hidden self).
         at2 W' i j = spec_update (nat (num_visible self)) (nat (num_hidden self)) N lr
                        (at2 (weights self_k)) (at2 data)
                        (epoch_draws (nat (num_hidden self)) (np_random e_k)) i j)"
proof -
  let ?D = "insert_col0 1 data"
  let ?V = "nat (num_visible self)" and ?H = "nat (num_hidden self)"
  have len: "length (rows data) = N" using data by (rule is_matrix_rows)
  obtain self_k e_k where tk: "train_loop k ?D N lr 0 (self, e) = (Inr (), self_k, e_k)"
    and okk: "engine_ok self_k" and vk: "num_visible self_k = num_visible self"
    and hk: "num_hidden self_k = num_hidden self"
    using train_loop_ok[OF data N ok, of k lr 0 e] by blast
  have dk: "is_matrix N (nat (num_visible self_k)) data" using data vk by simp
  obtain W' e' where ep: "train_epoch ?D N lr (int k) (self_k, e_k) = (Inr (), self_k\<lparr>weights := W'\<rparr>, e')"
    and W': "is_matrix (Suc ?V) (Suc ?H) W'"
    and upd: "\<forall>i\<le>?V. \<forall>j\<le>?H. at2 W' i j = spec_update ?V ?H N lr
                        (at2 (weights self_k)) (at2 data) (epoch_draws ?H (np_random e_k)) i j"
    using train_epoch_ok[OF okk dk N, of lr "int k" e_k] vk hk by auto
  let ?m = "nat max_epochs - Suc k"
  have split: "nat max_epochs = k + Suc ?m" using k by simp
  have a: "train self data (int k) lr e = (Inr (), self_k, e_k)"
    by (simp add: train_def len tk)
  have "train self data max_epochs lr e = train_loop (k + Suc ?m) ?D N lr 0 (self, e)"
    using split by (simp add: train_def len)
  also have "\<dots> = train_loop (Suc ?m) ?D N lr (int k) (self_k, e_k)"
    by (simp only: train_loop_add tk prod.case sum.case) simp
  also have "\<dots> = train_loop ?m ?D N lr (int k + 1) (self_k\<lparr>weights := W'\<rparr>, e')"
    by (simp only: train_loop.simps ep prod.case sum.case)
  finally have b: "train self data max_epochs lr e =
      train_loop ?m ?D N lr (int k + 1) (self_k\<lparr>weights := W'\<rparr>, e')" .
  have ok': "engine_ok (self_k\<lparr>weights := W'\<rparr>)"
    using okk W' vk hk by (intro engine_ok_weights) simp_all
  have dk': "is_matrix N (nat (num_visible (self_k\<lparr>weights := W'\<rparr>))) data" using dk by simp
  have c: "fst (train self data max_epochs lr e) = Inr ()"
    using train_loop_ok[OF dk' N ok', of ?m lr "int k + 1" e'] b by auto
  have s: "shape W' = (?V + 1, ?H + 1) \<and> wf_array W'"
    using is_matrix_shape[OF W'] by simp
  show ?thesis using a vk hk ep b c s upd by blast
qed

theorem train_each_epoch_witness:
  "engine_ok rbm0 \<and> is_matrix 1 (nat (num_visible rbm0)) \<lparr>cols = 1, rows = [[1::real]]\<rparr> \<and>
   (0::nat) < 1 \<and> int 0 < 1 \<and>
   (\<exists>self_k e_k W' e'.
      train rbm0 \<lparr>cols = 1, rows = [[1]]\<rparr> (int 0) (1 / 10) env0 = (Inr (), self_k, e_k) \<and>
      num_visible self_k = num_visible rbm0 \<and> num_hidden self_k = num_hidden rbm0 \<and>
      train_epoch (insert_col0 1 \<lparr>cols = 1, rows = [[1]]\<rparr>) 1 (1 / 10) (int 0) (self_k, e_k) =
        (Inr (), self_k\<lparr>weights := W'\<rparr>, e') \<and>
      train rbm0 \<lparr>cols = 1, rows = [[1]]\<rparr> 1 (1 / 10) env0 =
        train_loop (nat 1 - Suc 0) (insert_col0 1 \<lparr>cols = 1, rows = [[1]]\<rparr>) 1 (1 / 10) (int 0 + 1)
          (self_k\<lparr>weights := W'\<rparr>, e') \<and>
      fst (train rbm0 \<lparr>cols = 1, rows = [[1]]\<rparr> 1 (1 / 10) env0) = Inr () \<and>
      shape W' = (nat (num_visible rbm0) + 1, nat (num_hidden rbm0) + 1) \<and> wf_array W' \<and>
      (\<forall>i\<le>nat (num_visible rbm0). \<forall>j\<le>nat (num_hidden rbm0).
         at2 W' i j = spec_update (nat (num_visible rbm0)) (nat (num_hidden rbm0)) 1 (1 / 10)
                        (at2 (weights self_k)) (at2 \<lparr>cols = 1, rows = [[1]]\<rparr>)
                        (epoch_draws (nat (num_hidden rbm0)) (np_random e_k)) i j))"
proof -
  have v: "is_matrix 1 (nat (num_visible rbm0)) \<lparr>cols = 1, rows = [[1::real]]\<rparr>"
    using is_matrix_11 by (simp add: rbm0_def)
  have n: "(0::nat) < 1" and k: "int 0 < 1" by simp_all
  show ?thesis
    using train_each_epoch[OF engine_ok_rbm0 v n k, of "1 / 10" env0] engine_ok_rbm0 v n k
    by blast
qed

text \<open>
  C10: with \<open>max_epochs \<le> 0\<close> the epoch loop does not run: \<open>train\<close> returns without error
  and the engine, its weight matrix included, is unchanged (for every data matrix).
\<close>

theorem train_no_epochs:
  "max_epochs \<le> 0 \<Longrightarrow> train self data max_epochs lr e = (Inr (), self, e)"
  by (simp add: train_def)

theorem train_no_epochs_witness:
  "(0::int) \<le> 0 \<and> train rbm0 \<lparr>cols = 1, rows = [[1]]\<rparr> 0 (1 / 10) env0 = (Inr (), rbm0, env0)"
  using train_no_epochs[of 0 rbm0 "\<lparr>cols = 1, rows = [[1]]\<rparr>" "1 / 10" env0] by simp

text \<open>
  C3 (amended): when the data's column count differs from \<open>num_visible\<close> and
  \<open>max_epochs \<ge> 1\<close>, \<open>train\<close> fails with numpy's shape error (ValueError), raised by the
  first \<^verbatim>\<open>np.dot\<close> of the first epoch, after the bias column has been inserted; the engine
  (its weight matrix included) and the generator are left unchanged.
\<close>

theorem train_mismatch:
  assumes ok: "engine_ok self" and c: "cols data \<noteq> nat (num_visible self)" and m: "1 \<le> max_epochs"
  shows "train self data max_epochs lr e = (Inl ValueError, self, e)"
proof -
  obtain k where k: "nat max_epochs = Suc k" using m by (cases "nat max_epochs") auto
  have "length (rows (weights self)) = Suc (nat (num_visible self))"
    using ok by (simp add: engine_ok_def is_matrix_def)
  then have d: "dot (insert_col0 1 data) (weights self) = Inl ValueError"
    using c by (intro dot_mismatch) (simp add: insert_col0_def)
  have "train_epoch (insert_col0 1 data) (length (rows data)) lr 0 (self, e) = (Inl ValueError, self, e)"
    unfolding train_epoch_def Let_def by (simp only: fst_conv snd_conv d sum.case)
  then show ?thesis by (simp add: train_def k)
qed

theorem train_mismatch_witness:
  "engine_ok rbm0 \<and> cols \<lparr>cols = 3, rows = [[1, 0, 1]]\<rparr> \<noteq> nat (num_visible rbm0) \<and> (1::int) \<le> 2 \<and>
   train rbm0 \<lparr>cols = 3, rows = [[1, 0, 1]]\<rparr> 2 (1 / 10) env0 = (Inl ValueError, rbm0, env0)"
proof -
  have c: "cols \<lparr>cols = 3, rows = [[1, 0, 1::real]]\<rparr> \<noteq> nat (num_visible rbm0)"
    by (simp add: rbm0_def)
  show ?thesis
    using train_mismatch[OF engine_ok_rbm0 c, of 2 "1 / 10" env0] engine_ok_rbm0 c by simp
qed

text \<open>
  C3 as stated fails: with \<open>max_epochs = 0\<close> the loop does not run and a matrix of three
  columns given to an engine of one visible unit raises nothing.
\<close>

theorem train_mismatch_counterexample:
  "cols \<lparr>cols = 3, rows = [[1, 0, 1::real]]\<rparr> \<noteq> nat (num_visible rbm0) \<and>
   train rbm0 \<lparr>cols = 3, rows = [[1, 0, 1]]\<rparr> 0 (1 / 10) env0 = (Inr (), rbm0, env0)"
  by (simp add: train_def rbm0_def)

lemma train_example:
  "train rbm0 \<lparr>cols = 1, rows = [[1]]\<rparr> 1 (1 / 10) env0 =
     (Inr (), rbm0\<lparr>weights := \<lparr>cols = 2, rows = [[1 / 20, 0], [3 / 40, 1 / 40]]\<rparr>\<rparr>,
      env0\<lparr>stdout := [(0, 1 / 4)]\<rparr>)"
  by (simp add: train_def train_epoch_def rbm0_def env0_def insert_col0_def dot_def T_def inner_def
        map_array_def set_col0_def rand2_def binop2_def bdim_def broadcast_to_def stretch_def
        iadd2_def fits_def as_float_def np_sum_def advance_def logistic_0 Let_def eval_nat_numeral)

section \<open>Non-positive arguments\<close>

lemma daydream_nonpositive:
  assumes "num_samples \<le> 0"
  shows "fst (daydream self num_samples e) =
     Inl (if num_samples = 0 \<and> 0 \<le> num_visible self then IndexError else ValueError)"
proof (cases "num_samples = 0 \<and> 0 \<le> num_visible self")
  case True
  then show ?thesis
    by (simp add: daydream_def daydream_samples_def ones2_def rand1_def)
next
  case False
  then show ?thesis using assms
    by (auto simp add: daydream_def daydream_samples_def ones2_def rand1_def Let_def
          split: sum.splits prod.splits)
qed

text \<open>
  C7 (amended): the code has no check of its own for the dimensions. Construction fails
  exactly when \<open>num_visible < 0\<close>, \<open>num_hidden < 0\<close> or \<open>num_visible + num_hidden = 0\<close> (with
  ValueError, OverflowError or ZeroDivisionError); \<open>daydream\<close> fails for every non-positive
  \<open>num_samples\<close> (IndexError at 0 on an engine with \<open>num_visible \<ge> 0\<close>, ValueError otherwise);
  \<open>train\<close> with non-positive \<open>max_epochs\<close> does not fail, it returns with the engine unchanged.
\<close>

theorem nonpositive_arguments:
  assumes "num_samples \<le> 0" "max_epochs \<le> 0"
  shows "isl (fst (RBM_init RandomState nv nh e)) = (nv < 0 \<or> nh < 0 \<or> nv + nh = 0) \<and>
         fst (daydream self num_samples e') =
           Inl (if num_samples = 0 \<and> 0 \<le> num_visible self then IndexError else ValueError) \<and>
         train self data max_epochs lr e'' = (Inr (), self, e'')"
  using assms init_fails_iff[of RandomState nv nh e] daydream_nonpositive[of num_samples self e']
  by (simp add: train_def)

theorem nonpositive_arguments_witness:
  "(0::int) \<le> 0 \<and> (- 1::int) \<le> 0 \<and>
   isl (fst (RBM_init RandomState0 0 1 env0)) = ((0::int) < 0 \<or> (1::int) < 0 \<or> (0::int) + 1 = 0) \<and>
   fst (daydream rbm0 0 env0) =
     Inl (if (0::int) = 0 \<and> 0 \<le> num_visible rbm0 then IndexError else ValueError) \<and>
   train rbm0 \<lparr>cols = 1, rows = [[1]]\<rparr> (- 1) (1 / 10) env0 = (Inr (), rbm0, env0)"
  using nonpositive_arguments[of 0 "- 1" RandomState0 0 1 env0 rbm0 env0 "\<lparr>cols = 1, rows = [[1]]\<rparr>" "1 / 10" env0]
  by simp

text \<open>
  C7 as stated fails: \<^verbatim>\<open>RBM(0, 1)\<close> is constructed without error, and \<open>train\<close> with
  \<open>max_epochs = -1\<close> returns without error.
\<close>

theorem invalid_dimension_counterexample:
  "fst (RBM_init RandomState0 0 1 env0) =
     Inr \<lparr>num_hidden = 1, num_visible = 0, debug_print = True,
          weights = \<lparr>cols = 2, rows = [[0, 0]]\<rparr>\<rparr> \<and>
   fst (train rbm0 \<lparr>cols = 1, rows = [[1]]\<rparr> (- 1) (1 / 10) env0) = Inr ()"
  by (simp add: RBM_init_def np_sqrt_def uniform_def rand2_def insert_col0_def insert_row0_def train_def)

end
